theory Spec2Isabelle
  imports Complex_Main "HOL-Library.Sublist" "HOL-Library.Char_ord" "HOL-Library.List_Lexorder"
begin

section \<open>Python values and errors\<close>

text \<open>
  \<open>json\<close> is a value decoded from a JSON response (\<open>JNull\<close> is Python's
  \<open>None\<close>; a dictionary is the list of its items, in order). \<open>pyerr\<close> lists the
  exceptions that the modelled cells can raise; \<open>RuntimeError\<close> carries the
  \<open>details\<close> value that \<open>get_results\<close> formats into its message.
\<close>

datatype json =
    JNull
  | JBool bool
  | JNum real
  | JStr string
  | JArr "json list"
  | JObj "(string \<times> json) list"

datatype pyerr =
    IndexError
  | ZeroDivisionError
  | ValueError
  | KeyError string
  | TypeError
  | AttributeError
  | AssertionError
  | RuntimeError json

section \<open>Dense arrays as numpy computes with them\<close>

text \<open>
  A 1-D array is a list, a 2-D array the list of its rows. The operators below give the
  result numpy computes on operands whose shapes agree; on other shapes numpy raises
  \<open>ValueError\<close>, and the theorems carry the shapes as hypotheses. Arithmetic is
  exact (over the reals).
\<close>

definition is_matrix :: "nat \<Rightarrow> nat \<Rightarrow> real list list \<Rightarrow> bool" where
  "is_matrix r c M = (length M = r \<and> list_all (\<lambda>row. length row = c) M)"

definition dot :: "real list \<Rightarrow> real list \<Rightarrow> real" where
  \<comment> \<open>\<open>u @ v\<close> for 1-D \<open>u\<close>, \<open>v\<close>\<close>
  "dot u v = sum_list (map2 (*) u v)"

definition vecmat :: "real list \<Rightarrow> real list list \<Rightarrow> real list" where
  \<comment> \<open>\<open>v @ M\<close> for 1-D \<open>v\<close> and 2-D \<open>M\<close>\<close>
  "vecmat v M = map (\<lambda>col. dot v col) (transpose M)"

definition matvec :: "real list list \<Rightarrow> real list \<Rightarrow> real list" where
  \<comment> \<open>\<open>M @ v\<close> for 2-D \<open>M\<close> and 1-D \<open>v\<close>\<close>
  "matvec M v = map (\<lambda>row. dot row v) M"

definition matmul :: "real list list \<Rightarrow> real list list \<Rightarrow> real list list" where
  \<comment> \<open>\<open>M @ N\<close> for 2-D \<open>M\<close>, \<open>N\<close>\<close>
  "matmul M N = map (\<lambda>row. vecmat row N) M"

definition scale :: "real \<Rightarrow> real list \<Rightarrow> real list" where
  \<comment> \<open>\<open>c * v\<close> for a scalar \<open>c\<close> and 1-D \<open>v\<close>\<close>
  "scale c v = map (\<lambda>x. c * x) v"

definition mscale :: "real \<Rightarrow> real list list \<Rightarrow> real list list" where
  \<comment> \<open>\<open>c * M\<close> for a scalar \<open>c\<close> and 2-D \<open>M\<close>\<close>
  "mscale c M = map (scale c) M"

definition madd :: "real list list \<Rightarrow> real list list \<Rightarrow> real list list" where
  \<comment> \<open>\<open>M + N\<close> for 2-D arrays of one shape\<close>
  "madd M N = map2 (map2 (+)) M N"

definition np_ones :: "nat \<Rightarrow> real list" where
  \<comment> \<open>\<open>np.ones((n,))\<close>\<close>
  "np_ones n = replicate n 1"

definition np_diag :: "real list \<Rightarrow> real list list" where
  \<comment> \<open>\<open>np.diag(v)\<close> for 1-D \<open>v\<close>\<close>
  "np_diag v = map (\<lambda>i. map (\<lambda>j. if i = j then v ! i else 0) [0..<length v]) [0..<length v]"

definition reshape_col :: "real list \<Rightarrow> real list list" where
  \<comment> \<open>\<open>v.reshape((n, 1))\<close> for an array \<open>v\<close> of \<open>n\<close> entries\<close>
  "reshape_col v = map (\<lambda>x. [x]) v"

definition np_max :: "real list list \<Rightarrow> pyerr + real" where
  \<comment> \<open>\<open>np.max(M)\<close>: the largest entry; \<open>ValueError\<close> on an array with no entry\<close>
  "np_max M = (case concat M of [] \<Rightarrow> Inl ValueError | x # xs \<Rightarrow> Inr (fold max xs x))"

definition symmetric :: "real list list \<Rightarrow> bool" where
  "symmetric M = list_all (\<lambda>i. list_all (\<lambda>j. M ! i ! j = M ! j ! i) [0..<length M]) [0..<length M]"

definition square_symmetric :: "real list list \<Rightarrow> bool" where
  "square_symmetric M = (is_matrix (length M) (length M) M \<and> symmetric M)"

definition binary :: "real list \<Rightarrow> bool" where
  "binary s = list_all (\<lambda>v. v = 0 \<or> v = 1) s"

section \<open>Set-Partition-Tutorial: the problem encoder\<close>

text \<open>
  \<open>S\<close> is the list of sets, a notebook global. Python iterates a set in an order of
  its own; \<open>iter\<close> stands for it, and \<open>py_iter iter A\<close> says that it lists every
  element of \<open>A\<close> once.
\<close>

definition py_iter :: "('a set \<Rightarrow> 'a list) \<Rightarrow> 'a set \<Rightarrow> bool" where
  "py_iter iter A = (distinct (iter A) \<and> set (iter A) = A)"

definition universe :: "'a set list \<Rightarrow> 'a set" where
  \<comment> \<open>\<open>X = set(); for S_i in S: X = X.union(S_i)\<close>\<close>
  "universe S = fold (\<lambda>S_i X. X \<union> S_i) S {}"

definition build_A :: "('a set \<Rightarrow> 'a list) \<Rightarrow> 'a set list \<Rightarrow> 'a set \<Rightarrow> real list list" where
  \<comment> \<open>\<open>for x in X: row = [1 if x in S_i else 0 for S_i in S]; A.append(row)\<close>\<close>
  "build_A iter S X = map (\<lambda>x. map (\<lambda>S_i. if x \<in> S_i then 1 else 0) S) (iter X)"

definition build_b :: "real list list \<Rightarrow> real list" where
  \<comment> \<open>\<open>b = np.ones((A.shape[0],))\<close>\<close>
  "build_b A = np_ones (length A)"

definition encoder :: "real list list \<Rightarrow> real list \<Rightarrow> pyerr + (real list list \<times> real list list \<times> real)" where
  \<comment> \<open>The cell \<open>J = A.T@A; h = -2 * b.T@A; n = h.shape[0]; h = h.reshape((n, 1));
      offset = b.T@b\<close>. With no row, \<open>np.array([])\<close> is 1-D, both products are scalars
      and \<open>h.shape[0]\<close> raises \<open>IndexError\<close>.\<close>
  "encoder A b =
     (if A = [] then Inl IndexError
      else
        let J = matmul (transpose A) A;
            h = vecmat (scale (- 2) b) A;
            h = reshape_col h;
            offset = dot b b
        in Inr (J, h, offset))"

definition first_column :: "real list list \<Rightarrow> real list" where
  \<comment> \<open>\<open>h.T[0]\<close> for a 2-D \<open>h\<close> with at least one column\<close>
  "first_column h = map (\<lambda>row. row ! 0) h"

definition build_P :: "real list list \<Rightarrow> real list list \<Rightarrow> real list list" where
  \<comment> \<open>\<open>P = J + np.diag(h.T[0])\<close>\<close>
  "build_P J h = madd J (np_diag (first_column h))"

definition build_objective :: "real list \<Rightarrow> 'a set list \<Rightarrow> pyerr + real list list" where
  \<comment> \<open>\<open>objective = np.diag([W[i] for i in range(len(S))])\<close>\<close>
  "build_objective W S =
     (if length S \<le> length W then Inr (np_diag (map (\<lambda>i. W ! i) [0..<length S]))
      else Inl IndexError)"

definition build_Q :: "real list list \<Rightarrow> real list list \<Rightarrow> pyerr + real list list" where
  \<comment> \<open>\<open>alpha = np.max(objective); Q = objective + alpha * P\<close>\<close>
  "build_Q objective P =
     (case np_max objective of
        Inl e \<Rightarrow> Inl e
      | Inr alpha \<Rightarrow> Inr (madd objective (mscale alpha P)))"

text \<open>The quantities that the notebook's text states of a sample, over the reals.\<close>

definition qform :: "real list \<Rightarrow> real list list \<Rightarrow> real" where
  \<comment> \<open>\<open>s.T @ M @ s\<close>, evaluated from the left\<close>
  "qform s M = dot (vecmat s M) s"

definition penalty :: "real list list \<Rightarrow> real list list \<Rightarrow> real \<Rightarrow> real list \<Rightarrow> real" where
  \<comment> \<open>\<open>s.T @ J @ s + h.T[0] @ s + offset\<close>\<close>
  "penalty J h offset s = qform s J + dot (first_column h) s + offset"

definition residual_sq :: "real list list \<Rightarrow> real list \<Rightarrow> real list \<Rightarrow> real" where
  \<comment> \<open>the squared Euclidean norm of \<open>A @ s - b\<close>\<close>
  "residual_sq A b s = sum_list (map (\<lambda>(u, v). (u - v)\<^sup>2) (zip (matvec A s) b))"

definition cover_count :: "'a set list \<Rightarrow> real list \<Rightarrow> 'a \<Rightarrow> nat" where
  \<comment> \<open>the number of selected sets that \<open>x\<close> belongs to\<close>
  "cover_count S s x = length (filter (\<lambda>i. s ! i = 1 \<and> x \<in> S ! i) [0..<length S])"

definition exact_cover :: "'a set list \<Rightarrow> 'a set \<Rightarrow> real list \<Rightarrow> bool" where
  \<comment> \<open>set partitioning: every element of \<open>X\<close> is covered exactly once\<close>
  "exact_cover S X s = (\<forall>x\<in>X. cover_count S s x = 1)"

section \<open>Set-Partition-Tutorial: the result check\<close>

text \<open>
  What \<open>check_result\<close> prints, one constructor for each \<open>print\<close> of the source.
  \<open>Set_coverage r\<close> is the line \<open>Set coverage r%\<close> and \<open>Partition_found v\<close> the
  line \<open>Partition found: v\<close>.
\<close>

datatype line =
    QUBO_value real
  | Times_sample_found int
  | Objective_Function_value real
  | Selected_Sets
  | Selected nat
  | Newline
  | Set_coverage real
  | Partition_found bool

record results =
  samples :: "real list list"
  energies :: "real list"
  counts :: "int list"

fun for_range :: "(nat \<Rightarrow> 's \<Rightarrow> pyerr + 's) \<Rightarrow> nat list \<Rightarrow> 's \<Rightarrow> 's \<times> pyerr option" where
  "for_range body [] st = (st, None)"
| "for_range body (i # rest) st =
     (case body i st of
        Inl e \<Rightarrow> (st, Some e)
      | Inr st' \<Rightarrow> for_range body rest st')"

definition select_body ::
  "'a set list \<Rightarrow> ('a set \<Rightarrow> 'a list) \<Rightarrow> real list \<Rightarrow> nat \<Rightarrow>
   line list \<times> 'a set \<times> 'a list \<Rightarrow> pyerr + (line list \<times> 'a set \<times> 'a list)" where
  \<comment> \<open>\<open>if sample[i] == 1: print(f"S_{i}", end=" "); testX = testX.union(S[i]);
      members.extend(S[i])\<close>\<close>
  "select_body S iter sample i st =
     (case st of (out, testX, members) \<Rightarrow>
        if i < length sample then
          (if sample ! i = 1
           then Inr (out @ [Selected i], testX \<union> S ! i, members @ iter (S ! i))
           else Inr st)
        else Inl IndexError)"

text \<open>
  numpy evaluates \<open>sample.T@objective@sample\<close> in the arithmetic of the arrays' type:
  64-bit integers, which wrap around, or 64-bit floating point, which rounds. That
  arithmetic is not modelled here: \<open>quad sample M\<close> stands for the number that numpy
  computes, and nothing is assumed of it.
\<close>

definition objective_lines ::
  "(real list \<Rightarrow> real list list \<Rightarrow> real) \<Rightarrow> real list list option \<Rightarrow> real list \<Rightarrow>
   pyerr + line list" where
  \<comment> \<open>\<open>if objective is not None: print("Objective Function value:",
      sample.T@objective@sample)\<close>; the products raise \<open>ValueError\<close> unless the
      array is square of the sample's length\<close>
  "objective_lines quad objective sample =
     (case objective of
        None \<Rightarrow> Inr []
      | Some M \<Rightarrow>
          if is_matrix (length sample) (length sample) M
          then Inr [Objective_Function_value (quad sample M)]
          else Inl ValueError)"

definition sample_block ::
  "'a set list \<Rightarrow> 'a set \<Rightarrow> ('a set \<Rightarrow> 'a list) \<Rightarrow> (real list \<Rightarrow> real list list \<Rightarrow> real) \<Rightarrow>
   real list list option \<Rightarrow> results \<Rightarrow> nat \<Rightarrow> real list \<Rightarrow> line list \<times> pyerr option" where
  \<comment> \<open>the body of \<open>for j, sample in enumerate(samples)\<close>: the lines it prints, and
      the exception that ends it, if any\<close>
  "sample_block S X iter quad objective res j sample =
     (if \<not> j < length (energies res) then ([], Some IndexError)
      else
        let out = [QUBO_value (energies res ! j)] in
        if \<not> j < length (counts res) then (out, Some IndexError)
        else
          let out = out @ [Times_sample_found (counts res ! j)] in
          case objective_lines quad objective sample of
            Inl e \<Rightarrow> (out, Some e)
          | Inr obj \<Rightarrow>
              let out = out @ obj @ [Selected_Sets] in
              (case for_range (select_body S iter sample) [0..<length S] (out, {}, []) of
                 ((out, testX, members), Some e) \<Rightarrow> (out, Some e)
               | ((out, testX, members), None) \<Rightarrow>
                   let out = out @ [Newline] in
                   if card X = 0 then (out, Some ZeroDivisionError)
                   else
                     (out @ [Set_coverage (100 * real (card testX) / real (card X)),
                             Partition_found (card testX = length members)], None)))"

fun enumerate_loop ::
  "(nat \<Rightarrow> 'b \<Rightarrow> line list \<times> pyerr option) \<Rightarrow> nat \<Rightarrow> 'b list \<Rightarrow> line list \<times> pyerr option" where
  "enumerate_loop body j [] = ([], None)"
| "enumerate_loop body j (x # rest) =
     (case body j x of
        (out, Some e) \<Rightarrow> (out, Some e)
      | (out, None) \<Rightarrow>
          (case enumerate_loop body (Suc j) rest of (out', r) \<Rightarrow> (out @ out', r)))"

definition check_result ::
  "'a set list \<Rightarrow> 'a set \<Rightarrow> ('a set \<Rightarrow> 'a list) \<Rightarrow> (real list \<Rightarrow> real list list \<Rightarrow> real) \<Rightarrow>
   results \<Rightarrow> real list list option \<Rightarrow> line list \<times> pyerr option" where
  \<comment> \<open>\<open>S\<close> and \<open>X\<close> are the notebook's globals\<close>
  "check_result S X iter quad res objective =
     enumerate_loop (sample_block S X iter quad objective res) 0 (samples res)"

definition selected_sets :: "'a set list \<Rightarrow> real list \<Rightarrow> nat list" where
  \<comment> \<open>the indices \<open>i\<close> with \<open>s[i] == 1\<close>\<close>
  "selected_sets S s = filter (\<lambda>i. s ! i = 1) [0..<length S]"

definition pairwise_disjoint :: "'a set list \<Rightarrow> nat list \<Rightarrow> bool" where
  "pairwise_disjoint S sel =
     list_all (\<lambda>i. list_all (\<lambda>j. i = j \<or> S ! i \<inter> S ! j = {}) sel) sel"

section \<open>Dirac-3 tutorial: \<open>sample_hamiltonian\<close> and \<open>get_results\<close>\<close>

text \<open>
  A response is a Python dictionary, here the list of its items in order, with distinct
  keys. The four functions below are Python's \<open>key in v\<close>, \<open>v[key]\<close> for a string
  key, \<open>len(v)\<close> and \<open>v.values()\<close> on a value decoded from JSON.
\<close>

fun py_in :: "string \<Rightarrow> json \<Rightarrow> pyerr + bool" where
  "py_in k (JObj d) = Inr (map_of d k \<noteq> None)"
| "py_in k (JArr xs) = Inr (JStr k \<in> set xs)"
| "py_in k (JStr s) = Inr (sublist k s)"
| "py_in k v = Inl TypeError"

fun py_getitem :: "json \<Rightarrow> string \<Rightarrow> pyerr + json" where
  "py_getitem (JObj d) k = (case map_of d k of None \<Rightarrow> Inl (KeyError k) | Some v \<Rightarrow> Inr v)"
| "py_getitem v k = Inl TypeError"

fun py_len :: "json \<Rightarrow> pyerr + nat" where
  "py_len (JObj d) = Inr (length d)"
| "py_len (JArr xs) = Inr (length xs)"
| "py_len (JStr s) = Inr (length s)"
| "py_len v = Inl TypeError"

fun py_values :: "json \<Rightarrow> pyerr + json list" where
  "py_values (JObj d) = Inr (map snd d)"
| "py_values v = Inl AttributeError"

definition get_results :: "(string \<times> json) list \<Rightarrow> pyerr + json" where
  "get_results response =
     (if map_of response ''results'' \<noteq> None \<and> map_of response ''results'' \<noteq> Some JNull then
        (case py_getitem (the (map_of response ''results'')) ''file_config'' of
           Inl e \<Rightarrow> Inl e
         | Inr results_file_config \<Rightarrow>
             (case py_len results_file_config of
                Inl e \<Rightarrow> Inl e
              | Inr n \<Rightarrow>
                  if n \<noteq> 1 then Inl AssertionError
                  else
                    (case py_values results_file_config of
                       Inl e \<Rightarrow> Inl e
                     | Inr vs \<Rightarrow> (case vs of [] \<Rightarrow> Inl IndexError | results # _ \<Rightarrow> Inr results))))
      else
        (case (case map_of response ''job_info'' of
                 None \<Rightarrow> Inr False
               | Some job_info \<Rightarrow> py_in ''job_result'' job_info) of
           Inl e \<Rightarrow> Inl e
         | Inr True \<Rightarrow>
             (case py_getitem (the (map_of response ''job_info'')) ''job_result'' of
                Inl e \<Rightarrow> Inl e
              | Inr details \<Rightarrow> Inl (RuntimeError details))
         | Inr False \<Rightarrow> Inl (RuntimeError JNull)))"

text \<open>
  \<open>sample_hamiltonian\<close> talks to the remote solver through three methods of the
  client. Their outcomes are the client's business: \<open>'w\<close> is the state of the remote
  service, and each method maps its arguments and that state to a result (or an
  exception) and a new state. The calls made are logged in order.
\<close>

datatype ndarray = Array1 "real list" | Array2 "real list list"

record ham_file =
  file_name :: string
  hamiltonian_data :: "real list list"

record job_params =
  sampler_type :: string
  nsamples :: nat
  solution_precision :: real
  sum_constraint :: real
  relaxation_schedule :: int

record build_args =
  job_type :: string
  hamiltonian_file_id :: json
  params :: job_params
  job_tags :: "string list"

datatype call =
    Upload_file ham_file
  | Build_job_body build_args
  | Process_job string json bool

record 'w client =
  upload_file :: "ham_file \<Rightarrow> 'w \<Rightarrow> (pyerr + (string \<times> json) list) \<times> 'w"
  build_job_body :: "build_args \<Rightarrow> 'w \<Rightarrow> (pyerr + json) \<times> 'w"
  process_job :: "string \<Rightarrow> json \<Rightarrow> bool \<Rightarrow> 'w \<Rightarrow> (pyerr + (string \<times> json) list) \<times> 'w"

definition shape0 :: "ndarray \<Rightarrow> nat" where
  \<comment> \<open>\<open>C.shape[0]\<close>\<close>
  "shape0 C = (case C of Array1 v \<Rightarrow> length v | Array2 M \<Rightarrow> length M)"

definition entries :: "ndarray \<Rightarrow> real list" where
  \<comment> \<open>the entries in row-major order\<close>
  "entries C = (case C of Array1 v \<Rightarrow> v | Array2 M \<Rightarrow> concat M)"

definition reshape_n_1 :: "ndarray \<Rightarrow> nat \<Rightarrow> pyerr + real list list" where
  \<comment> \<open>\<open>C.reshape([n, 1])\<close>: \<open>ValueError\<close> unless \<open>C\<close> has \<open>n\<close> entries\<close>
  "reshape_n_1 C n =
     (if length (entries C) = n then Inr (reshape_col (entries C)) else Inl ValueError)"

definition hstack :: "real list list \<Rightarrow> real list list \<Rightarrow> pyerr + real list list" where
  \<comment> \<open>\<open>np.hstack([M, N])\<close> for 2-D arrays: \<open>ValueError\<close> unless they have as many
      rows\<close>
  "hstack M N = (if length M = length N then Inr (map2 (@) M N) else Inl ValueError)"

definition build_H :: "ndarray \<Rightarrow> real list list \<Rightarrow> pyerr + real list list" where
  \<comment> \<open>\<open>n = C.shape[0]; H = np.hstack([C.reshape([n, 1]), J])\<close>\<close>
  "build_H C J =
     (let n = shape0 C in
      case reshape_n_1 C n of
        Inl e \<Rightarrow> Inl e
      | Inr col \<Rightarrow> hstack col J)"

definition sample_hamiltonian ::
  "ndarray \<Rightarrow> real list list \<Rightarrow> real \<Rightarrow> int \<Rightarrow> real \<Rightarrow> 'w client \<Rightarrow> 'w \<Rightarrow>
   (pyerr + (string \<times> json) list) \<times> call list \<times> 'w" where
  "sample_hamiltonian C J sum_constraint' schedule solution_precision' client w =
     (case build_H C J of
        Inl e \<Rightarrow> (Inl e, [], w)
      | Inr H \<Rightarrow>
      (let ham_file = \<lparr>file_name = ''qudit-tutorial-hame'', hamiltonian_data = H\<rparr>;
           log = [Upload_file ham_file]
       in
       case upload_file client ham_file w of
         (Inl e, w) \<Rightarrow> (Inl e, log, w)
       | (Inr uploaded, w) \<Rightarrow>
       (case map_of uploaded ''file_id'' of
          None \<Rightarrow> (Inl (KeyError ''file_id''), log, w)
        | Some file_id \<Rightarrow>
        (let job_tags = [''qudit-tutorial''];
             args = \<lparr>job_type = ''sample-hamiltonian'', hamiltonian_file_id = file_id,
                     params = \<lparr>sampler_type = ''dirac-3'', nsamples = 1,
                                solution_precision = solution_precision',
                                sum_constraint = sum_constraint',
                                relaxation_schedule = schedule\<rparr>,
                     job_tags = job_tags\<rparr>;
             log = log @ [Build_job_body args]
         in
         case build_job_body client args w of
           (Inl e, w) \<Rightarrow> (Inl e, log, w)
         | (Inr job_body, w) \<Rightarrow>
         (let log = log @ [Process_job ''sample-hamiltonian'' job_body True] in
          case process_job client ''sample-hamiltonian'' job_body True w of
            (response, w) \<Rightarrow> (response, log, w))))))"

section \<open>The notebooks' data\<close>

definition S_tutorial :: "string set list" where
  \<comment> \<open>\<open>S\<close> of the Set-Partition-Tutorial\<close>
  "S_tutorial =
     [{''A'', ''B'', ''C''}, {''D'', ''E'', ''F''}, {''A'', ''F''}, {''B'', ''E''}, {''C'', ''D''},
      {''A''}, {''B''}, {''C'', ''D'', ''E''}, {''B'', ''C''}]"

definition X_tutorial :: "string set" where
  \<comment> \<open>the value of \<open>X\<close> the notebook shows\<close>
  "X_tutorial = {''A'', ''B'', ''C'', ''D'', ''E'', ''F''}"

definition s_01 :: "real list" where
  \<comment> \<open>the returned sample that the notebook prints as \<open>S_0 S_1\<close>\<close>
  "s_01 = [1, 1, 0, 0, 0, 0, 0, 0, 0]"

definition s_267 :: "real list" where
  \<comment> \<open>the returned sample that the notebook prints as \<open>S_2 S_6 S_7\<close>\<close>
  "s_267 = [0, 0, 1, 0, 0, 0, 1, 1, 0]"

definition s_234 :: "real list" where
  \<comment> \<open>the returned sample that the notebook prints as \<open>S_2 S_3 S_4\<close>\<close>
  "s_234 = [0, 0, 1, 1, 1, 0, 0, 0, 0]"

definition penalty_only_results :: results where
  \<comment> \<open>\<open>penalty_only_response["results"]\<close>, as the notebook's output shows it\<close>
  "penalty_only_results =
     \<lparr>samples = [s_267, s_234, s_01], energies = [- 6, - 6, - 6], counts = [2, 2, 1]\<rparr>"

definition short_sample_results :: results where
  \<comment> \<open>results whose first sample has no entry, before the sample \<open>S_0 S_1\<close>\<close>
  "short_sample_results = \<lparr>samples = [[], s_01], energies = [- 6, - 6], counts = [1, 1]\<rparr>"

definition s_zeros :: "real list" where
  \<comment> \<open>the sample that selects no set\<close>
  "s_zeros = [0, 0, 0, 0, 0, 0, 0, 0, 0]"

definition short_sample_zeros_results :: results where
  \<comment> \<open>results whose first sample has no entry, before the sample of zeros\<close>
  "short_sample_zeros_results =
     \<lparr>samples = [[], s_zeros], energies = [- 6, 0], counts = [1, 1]\<rparr>"

definition zeros_results :: results where
  \<comment> \<open>results with the sample of zeros alone\<close>
  "zeros_results = \<lparr>samples = [s_zeros], energies = [0], counts = [1]\<rparr>"

definition W_tutorial :: "real list" where
  \<comment> \<open>the weights \<open>W\<close>, to the eight decimals the notebook displays\<close>
  "W_tutorial =
     [4.87248808, 28.91096598, 72.09663468, 2.16162499, 20.59227653, 5.07732567,
      30.2271894, 66.39102946, 30.81143932]"

definition h_qudit :: "ndarray" where
  \<comment> \<open>\<open>h\<close> of the first Dirac-3 example\<close>
  "h_qudit = Array2 [[- 1], [0], [0]]"

definition C_row :: "ndarray" where
  \<comment> \<open>three linear coefficients as a row: an array of shape \<open>(1, 3)\<close>\<close>
  "C_row = Array2 [[- 1, 0, 0]]"

definition J_qudit :: "real list list" where
  \<comment> \<open>\<open>J\<close> of the first Dirac-3 example\<close>
  "J_qudit = [[0, 1, 1], [1, 0, 1], [1, 1, 0]]"

definition qudit_results :: json where
  \<comment> \<open>the value under \<open>file_config\<close> in the job response that the Dirac-3 notebook
      displays\<close>
  "qudit_results =
     JObj [(''counts'', JArr [JNum 1]),
           (''energies'', JArr [JNum (- 196)]),
           (''solutions'', JArr [JArr [JNum 0.00000010000000116860974, JNum 7, JNum 0]])]"

definition qudit_response :: "(string \<times> json) list" where
  \<comment> \<open>that job response, without the submission and status records of \<open>job_info\<close>\<close>
  "qudit_response =
     [(''job_info'',
         JObj [(''job_id'', JStr ''65dff3571e7c62f822901857''),
               (''job_result'',
                  JObj [(''file_id'', JStr ''65dff35efd7ff43e52669ab5''),
                        (''device_usage_s'', JNum 1)]),
               (''details'', JObj [(''status'', JStr ''completed'')])]),
      (''results'',
         JObj [(''file_id'', JStr ''65dff35efd7ff43e52669ab5''),
               (''num_parts'', JNum 1),
               (''num_bytes'', JNum 256),
               (''file_config'',
                  JObj [(''normalized_qudit_hamiltonian_optimization_continuous_results'',
                         qudit_results)])])]"

definition failed_response :: "(string \<times> json) list" where
  \<comment> \<open>a response of a job that produced no results\<close>
  "failed_response =
     [(''job_info'',
         JObj [(''job_id'', JStr ''65dff3571e7c62f822901857''),
               (''job_result'', JObj [(''error'', JStr ''device unavailable'')]),
               (''details'', JObj [(''status'', JStr ''errored'')])]),
      (''results'', JNull)]"

definition two_results_response :: "(string \<times> json) list" where
  \<comment> \<open>a response whose \<open>file_config\<close> has two keys\<close>
  "two_results_response =
     [(''job_info'', JObj [(''details'', JObj [(''status'', JStr ''completed'')])]),
      (''results'',
         JObj [(''file_config'',
                  JObj [(''first_results'', qudit_results), (''second_results'', qudit_results)])])]"

definition accepting_client :: "nat client" where
  \<comment> \<open>a client whose service accepts every request and answers with the response the
      notebook displays; its state counts the requests sent\<close>
  "accepting_client =
     \<lparr>upload_file = (\<lambda>f w. (Inr [(''file_id'', JStr ''65dff356fd7ff43e52669ab3'')], Suc w)),
      build_job_body = (\<lambda>a w. (Inr (JObj [(''job_submission'', JNull)]), w)),
      process_job = (\<lambda>t b wait w. (Inr qudit_response, Suc w))\<rparr>"

section \<open>Arrays: entries of products\<close>

lemma dot_sum:
  assumes "length u = length v"
  shows "dot u v = (\<Sum>i<length u. u ! i * v ! i)"
proof -
  have "dot u v = (\<Sum>i = 0..<length (map2 (*) u v). map2 (*) u v ! i)"
    unfolding dot_def by (rule sum_list_sum_nth)
  also have "\<dots> = (\<Sum>i = 0..<length u. u ! i * v ! i)"
    using assms by (intro sum.cong) auto
  finally show ?thesis by (simp add: lessThan_atLeast0)
qed

lemma is_matrix_nth:
  "is_matrix r c M \<Longrightarrow> i < r \<Longrightarrow> length (M ! i) = c"
  by (simp add: is_matrix_def list_all_length)

lemma is_matrix_length: "is_matrix r c M \<Longrightarrow> length M = r"
  by (simp add: is_matrix_def)

lemma transpose_matrix:
  assumes "is_matrix r c M" "0 < r"
  shows "transpose M = map (\<lambda>j. map (\<lambda>i. M ! i ! j) [0..<r]) [0..<c]"
proof -
  have "transpose M = map (\<lambda>j. map (\<lambda>i. M ! i ! j) [0..<length M]) [0..<c]"
    using assms by (intro transpose_rectangle) (auto simp: is_matrix_def list_all_length)
  then show ?thesis using assms by (simp add: is_matrix_def)
qed

lemma vecmat_matrix:
  assumes "is_matrix r c M" "0 < r" "length v = r"
  shows "vecmat v M = map (\<lambda>j. \<Sum>i<r. v ! i * M ! i ! j) [0..<c]"
  using assms by (simp add: vecmat_def transpose_matrix dot_sum)

lemma matvec_matrix:
  assumes "is_matrix r c M" "length v = c"
  shows "matvec M v = map (\<lambda>i. \<Sum>j<c. M ! i ! j * v ! j) [0..<r]"
proof (rule nth_equalityI)
  show "length (matvec M v) = length (map (\<lambda>i. \<Sum>j<c. M ! i ! j * v ! j) [0..<r])"
    using assms by (simp add: matvec_def is_matrix_def)
  fix i assume "i < length (matvec M v)"
  then have i: "i < r" using assms by (simp add: matvec_def is_matrix_def)
  then have "length (M ! i) = length v" using assms by (simp add: is_matrix_nth)
  then show "matvec M v ! i = map (\<lambda>i. \<Sum>j<c. M ! i ! j * v ! j) [0..<r] ! i"
    using i assms by (simp add: matvec_def is_matrix_def dot_sum)
qed

lemma qform_matrix:
  assumes "is_matrix n n M" "length s = n"
  shows "qform s M = (\<Sum>j<n. (\<Sum>i<n. s ! i * M ! i ! j) * s ! j)"
proof (cases "n = 0")
  case True
  then show ?thesis using assms by (simp add: qform_def dot_def)
next
  case False
  then show ?thesis using assms by (simp add: qform_def vecmat_matrix dot_sum)
qed

section \<open>The algebra of the penalty\<close>

lemma quad_part:
  fixes a :: "nat \<Rightarrow> nat \<Rightarrow> real" and s :: "nat \<Rightarrow> real"
  shows "(\<Sum>j<n. (\<Sum>i<n. s i * (\<Sum>k<m. a k i * a k j)) * s j) = (\<Sum>k<m. (\<Sum>j<n. a k j * s j)\<^sup>2)"
proof -
  have tm: "s i * (a k i * a k j) * s j = (a k j * s j) * (a k i * s i)" for i j k
    by simp
  have "(\<Sum>j<n. (\<Sum>i<n. s i * (\<Sum>k<m. a k i * a k j)) * s j)
        = (\<Sum>j<n. \<Sum>i<n. \<Sum>k<m. (a k j * s j) * (a k i * s i))"
    by (simp only: sum_distrib_left sum_distrib_right tm)
  also have "\<dots> = (\<Sum>j<n. \<Sum>k<m. \<Sum>i<n. (a k j * s j) * (a k i * s i))"
  proof (rule sum.cong[OF refl])
    fix j
    show "(\<Sum>i<n. \<Sum>k<m. (a k j * s j) * (a k i * s i)) = (\<Sum>k<m. \<Sum>i<n. (a k j * s j) * (a k i * s i))"
      by (rule sum.swap)
  qed
  also have "\<dots> = (\<Sum>k<m. \<Sum>j<n. \<Sum>i<n. (a k j * s j) * (a k i * s i))"
    by (rule sum.swap)
  also have "\<dots> = (\<Sum>k<m. (\<Sum>j<n. a k j * s j) * (\<Sum>i<n. a k i * s i))"
    by (simp only: sum_product)
  finally show ?thesis by (simp only: power2_eq_square)
qed

lemma lin_part:
  fixes a :: "nat \<Rightarrow> nat \<Rightarrow> real" and s b :: "nat \<Rightarrow> real"
  shows "(\<Sum>j<n. (\<Sum>k<m. (- 2 * b k) * a k j) * s j) = - 2 * (\<Sum>k<m. b k * (\<Sum>j<n. a k j * s j))"
proof -
  have tm: "(- 2 * b k) * a k j * s j = - 2 * (b k * (a k j * s j))" for j k
    by simp
  have "(\<Sum>j<n. (\<Sum>k<m. (- 2 * b k) * a k j) * s j) = (\<Sum>j<n. \<Sum>k<m. - 2 * (b k * (a k j * s j)))"
    by (simp only: sum_distrib_right tm)
  also have "\<dots> = (\<Sum>k<m. \<Sum>j<n. - 2 * (b k * (a k j * s j)))"
    by (rule sum.swap)
  also have "\<dots> = - 2 * (\<Sum>k<m. b k * (\<Sum>j<n. a k j * s j))"
    by (simp only: sum_distrib_left)
  finally show ?thesis .
qed

lemma quad_identity:
  fixes a :: "nat \<Rightarrow> nat \<Rightarrow> real" and s b :: "nat \<Rightarrow> real"
  shows "(\<Sum>j<n. (\<Sum>i<n. s i * (\<Sum>k<m. a k i * a k j)) * s j)
          + (\<Sum>j<n. (\<Sum>k<m. (- 2 * b k) * a k j) * s j) + (\<Sum>k<m. b k * b k)
        = (\<Sum>k<m. ((\<Sum>j<n. a k j * s j) - b k)\<^sup>2)"
proof -
  have tm: "(y - c)\<^sup>2 = y\<^sup>2 + (- 2) * (c * y) + c * c" for y c :: real
    by (simp add: power2_eq_square algebra_simps)
  have "(\<Sum>k<m. ((\<Sum>j<n. a k j * s j) - b k)\<^sup>2)
        = (\<Sum>k<m. (\<Sum>j<n. a k j * s j)\<^sup>2) + (- 2) * (\<Sum>k<m. b k * (\<Sum>j<n. a k j * s j)) + (\<Sum>k<m. b k * b k)"
    by (simp only: tm sum.distrib sum_distrib_left)
  then show ?thesis
    by (simp only: quad_part lin_part)
qed

section \<open>The constraint system\<close>

lemma fold_union: "fold (\<lambda>S_i X. X \<union> S_i) S X0 = X0 \<union> \<Union>(set S)"
  by (induction S arbitrary: X0) auto

lemma universe_eq: "universe S = \<Union>(set S)"
  by (simp add: universe_def fold_union)

lemma py_iter_length: "py_iter iter A \<Longrightarrow> length (iter A) = card A"
  by (metis distinct_card py_iter_def)

lemma py_iter_sorted_list: "finite A \<Longrightarrow> py_iter sorted_list_of_set A"
  by (simp add: py_iter_def)

lemma universe_tutorial: "universe S_tutorial = X_tutorial"
  by (auto simp: universe_eq S_tutorial_def X_tutorial_def)

lemma card_X_tutorial: "card X_tutorial = 6"
  by (simp add: X_tutorial_def)

text \<open>
  Claim C7. The constraint matrix \<open>A\<close> has one row for each element of the universe
  \<open>X\<close>, in the order in which Python iterates \<open>X\<close>, and one column for each set
  \<open>S_i\<close>; the entry of the row of \<open>x\<close> in column \<open>i\<close> is 1 when \<open>x\<close> is a
  member of \<open>S_i\<close> and 0 otherwise; \<open>b\<close> is the vector of \<open>|X|\<close> ones.
\<close>

theorem encoder_constraint_system:
  assumes "X = universe S" and "py_iter iter X"
  shows "length (build_A iter S X) = card X
       \<and> distinct (iter X) \<and> set (iter X) = X
       \<and> (\<forall>k<card X. length (build_A iter S X ! k) = length S
            \<and> (\<forall>i<length S. build_A iter S X ! k ! i = (if iter X ! k \<in> S ! i then 1 else 0)))
       \<and> build_b (build_A iter S X) = replicate (card X) 1"
  using assms py_iter_length[OF assms(2)]
  by (simp add: build_A_def build_b_def np_ones_def py_iter_def)

theorem encoder_constraint_system_witness:
  "X_tutorial = universe S_tutorial \<and> py_iter sorted_list_of_set X_tutorial
   \<and> length (build_A sorted_list_of_set S_tutorial X_tutorial) = 6
   \<and> build_b (build_A sorted_list_of_set S_tutorial X_tutorial) = [1, 1, 1, 1, 1, 1]
   \<and> build_A sorted_list_of_set S_tutorial X_tutorial ! 0 ! 2 = (if sorted_list_of_set X_tutorial ! 0 \<in> S_tutorial ! 2 then 1 else 0)"
proof -
  have a: "X_tutorial = universe S_tutorial" by (simp add: universe_tutorial)
  have f: "finite X_tutorial" by (simp add: X_tutorial_def)
  have b: "py_iter sorted_list_of_set X_tutorial" using f by (rule py_iter_sorted_list)
  have n: "length S_tutorial = 9" by (simp add: S_tutorial_def)
  have r: "replicate 6 (1::real) = [1, 1, 1, 1, 1, 1]" by (simp add: numeral_eq_Suc)
  from encoder_constraint_system[OF a b] show ?thesis
    using a b by (simp add: card_X_tutorial n r)
qed

section \<open>The penalty is the squared residual\<close>

lemma is_matrix_build_A:
  "py_iter iter X \<Longrightarrow> is_matrix (card X) (length S) (build_A iter S X)"
  by (simp add: is_matrix_def build_A_def py_iter_length list_all_iff)

lemma build_A_nth:
  "py_iter iter X \<Longrightarrow> k < card X \<Longrightarrow> i < length S \<Longrightarrow>
   build_A iter S X ! k ! i = (if iter X ! k \<in> S ! i then 1 else 0)"
  by (simp add: build_A_def py_iter_length)

lemma encoder_entries:
  assumes A: "is_matrix m n A" and m: "0 < m" and b: "length b = m"
  shows "encoder A b =
     Inr (map (\<lambda>i. map (\<lambda>j. \<Sum>k<m. A ! k ! i * A ! k ! j) [0..<n]) [0..<n],
          map (\<lambda>j. [\<Sum>k<m. (- 2 * b ! k) * A ! k ! j]) [0..<n],
          (\<Sum>k<m. b ! k * b ! k))"
proof -
  have ne: "A \<noteq> []" using A m by (auto simp: is_matrix_def)
  have J: "matmul (transpose A) A = map (\<lambda>i. map (\<lambda>j. \<Sum>k<m. A ! k ! i * A ! k ! j) [0..<n]) [0..<n]"
    using A m by (simp add: matmul_def transpose_matrix vecmat_matrix o_def)
  have h: "vecmat (scale (- 2) b) A = map (\<lambda>j. \<Sum>k<m. (- 2 * b ! k) * A ! k ! j) [0..<n]"
    using A m b by (simp add: vecmat_matrix scale_def)
  have off: "dot b b = (\<Sum>k<m. b ! k * b ! k)"
    using b by (simp add: dot_sum)
  show ?thesis
    using ne by (simp add: encoder_def Let_def J h off reshape_col_def o_def)
qed

lemma residual_sq_matrix:
  assumes "is_matrix m n A" "length b = m" "length s = n"
  shows "residual_sq A b s = (\<Sum>k<m. ((\<Sum>j<n. A ! k ! j * s ! j) - b ! k)\<^sup>2)"
proof -
  have "residual_sq A b s = (\<Sum>k = 0..<m. (\<lambda>(u, v). (u - v)\<^sup>2) (zip (matvec A s) b ! k))"
    using assms by (simp add: residual_sq_def sum_list_sum_nth matvec_matrix)
  also have "\<dots> = (\<Sum>k = 0..<m. ((\<Sum>j<n. A ! k ! j * s ! j) - b ! k)\<^sup>2)"
    using assms by (intro sum.cong refl) (simp add: matvec_matrix)
  finally show ?thesis by (simp add: lessThan_atLeast0)
qed

lemma penalty_identity:
  assumes A: "is_matrix m n A" and m: "0 < m" and b: "length b = m" and s: "length s = n"
    and enc: "encoder A b = Inr (J, h, offset)"
  shows "penalty J h offset s = residual_sq A b s"
proof -
  from enc encoder_entries[OF A m b]
  have J: "J = map (\<lambda>i. map (\<lambda>j. \<Sum>k<m. A ! k ! i * A ! k ! j) [0..<n]) [0..<n]"
    and h: "h = map (\<lambda>j. [\<Sum>k<m. (- 2 * b ! k) * A ! k ! j]) [0..<n]"
    and off: "offset = (\<Sum>k<m. b ! k * b ! k)"
    by simp_all
  have Jm: "is_matrix n n J" by (simp add: J is_matrix_def list_all_iff)
  have "qform s J = (\<Sum>j<n. (\<Sum>i<n. s ! i * J ! i ! j) * s ! j)"
    by (rule qform_matrix[OF Jm s])
  also have "\<dots> = (\<Sum>j<n. (\<Sum>i<n. s ! i * (\<Sum>k<m. A ! k ! i * A ! k ! j)) * s ! j)"
    by (intro sum.cong refl) (simp add: J)
  finally have q: "qform s J = (\<Sum>j<n. (\<Sum>i<n. s ! i * (\<Sum>k<m. A ! k ! i * A ! k ! j)) * s ! j)" .
  have fc: "first_column h = map (\<lambda>j. \<Sum>k<m. (- 2 * b ! k) * A ! k ! j) [0..<n]"
    by (simp add: first_column_def h o_def)
  have l: "dot (first_column h) s = (\<Sum>j<n. (\<Sum>k<m. (- 2 * b ! k) * A ! k ! j) * s ! j)"
    using s by (simp add: fc dot_sum)
  show ?thesis
    unfolding penalty_def q l off residual_sq_matrix[OF A b s]
    by (rule quad_identity)
qed

lemma residual_sq_zero_iff:
  assumes A: "is_matrix m n A" and b: "length b = m" and s: "length s = n"
  shows "residual_sq A b s = 0 \<longleftrightarrow> matvec A s = b"
proof -
  have "residual_sq A b s = 0 \<longleftrightarrow> (\<forall>k<m. (\<Sum>j<n. A ! k ! j * s ! j) = b ! k)"
    unfolding residual_sq_matrix[OF A b s]
    by (subst sum_nonneg_eq_0_iff) auto
  also have "\<dots> \<longleftrightarrow> matvec A s = b"
    using b by (auto simp: matvec_matrix[OF A s] list_eq_iff_nth_eq)
  finally show ?thesis .
qed

lemma indicator_sum:
  "(\<Sum>j<n. if P j then (1::real) else 0) = real (length (filter P [0..<n]))"
  by (induction n) auto

lemma binary_nth: "binary s \<Longrightarrow> j < length s \<Longrightarrow> s ! j = 0 \<or> s ! j = 1"
  by (simp add: binary_def list_all_length)

lemma row_dot_cover_count:
  assumes "binary s" "length s = length S"
  shows "(\<Sum>j<length S. (if x \<in> S ! j then 1 else 0) * s ! j) = real (cover_count S s x)"
proof -
  have "(\<Sum>j<length S. (if x \<in> S ! j then 1 else 0) * s ! j)
        = (\<Sum>j<length S. if s ! j = 1 \<and> x \<in> S ! j then 1 else 0)"
    using binary_nth[OF assms(1)] assms(2) by (intro sum.cong refl) auto
  then show ?thesis by (simp add: indicator_sum cover_count_def)
qed

lemma matvec_build_A_exact_cover:
  assumes it: "py_iter iter X" and bin: "binary s" and s: "length s = length S"
  shows "matvec (build_A iter S X) s = build_b (build_A iter S X) \<longleftrightarrow> exact_cover S X s"
proof -
  let ?A = "build_A iter S X"
  have A: "is_matrix (card X) (length S) ?A" using it by (rule is_matrix_build_A)
  have len: "length (iter X) = card X" using it by (rule py_iter_length)
  have row: "(\<Sum>j<length S. ?A ! k ! j * s ! j) = real (cover_count S s (iter X ! k))" if "k < card X" for k
  proof -
    have "(\<Sum>j<length S. ?A ! k ! j * s ! j) = (\<Sum>j<length S. (if iter X ! k \<in> S ! j then 1 else 0) * s ! j)"
      using that it by (intro sum.cong refl) (simp add: build_A_nth)
    then show ?thesis by (simp add: row_dot_cover_count[OF bin s])
  qed
  have "matvec ?A s = build_b ?A \<longleftrightarrow> (\<forall>k<card X. cover_count S s (iter X ! k) = 1)"
    using A by (auto simp: matvec_matrix[OF A s] build_b_def np_ones_def list_eq_iff_nth_eq is_matrix_def row)
  also have "\<dots> \<longleftrightarrow> (\<forall>x\<in>set (iter X). cover_count S s x = 1)"
    using len by (metis in_set_conv_nth)
  also have "\<dots> \<longleftrightarrow> exact_cover S X s"
    using it by (simp add: exact_cover_def py_iter_def)
  finally show ?thesis .
qed

lemma exact_cover_s_01: "exact_cover S_tutorial X_tutorial s_01"
  by code_simp

lemma binary_s_01: "binary s_01"
  by (simp add: s_01_def binary_def)

lemma length_S_tutorial: "length S_tutorial = 9"
  by (simp add: S_tutorial_def)

lemma py_iter_X_tutorial: "py_iter sorted_list_of_set X_tutorial"
  by (rule py_iter_sorted_list) (simp add: X_tutorial_def)

lemma X_tutorial_nonempty: "X_tutorial \<noteq> {}"
  by (simp add: X_tutorial_def)

text \<open>
  Claim C2. With \<open>J\<close>, \<open>h\<close> and \<open>offset\<close> as the encoder builds them from
  \<open>A\<close> and \<open>b\<close>, every real vector \<open>s\<close> with one entry for each set satisfies
  \<open>s\<^sup>T J s + h \<cdot> s + offset = \<parallel>A s - b\<parallel>\<^sup>2\<close>; the value is 0 exactly when
  \<open>A s = b\<close>, and for a binary \<open>s\<close> exactly when \<open>s\<close> selects an exact cover of
  \<open>X\<close>. The encoder returns for every non-empty universe.
\<close>

theorem penalty_is_squared_residual:
  assumes it: "py_iter iter X" and ne: "X \<noteq> {}"
  shows "\<exists>J h offset.
           encoder (build_A iter S X) (build_b (build_A iter S X)) = Inr (J, h, offset)
         \<and> (\<forall>s. length s = length S \<longrightarrow>
               penalty J h offset s
                 = residual_sq (build_A iter S X) (build_b (build_A iter S X)) s
             \<and> (penalty J h offset s = 0
                 \<longleftrightarrow> matvec (build_A iter S X) s = build_b (build_A iter S X))
             \<and> (binary s \<longrightarrow> (penalty J h offset s = 0 \<longleftrightarrow> exact_cover S X s)))"
proof -
  let ?A = "build_A iter S X"
  let ?b = "build_b ?A"
  have A: "is_matrix (card X) (length S) ?A" using it by (rule is_matrix_build_A)
  have fin: "finite X" using it by (metis List.finite_set py_iter_def)
  have m: "0 < card X" using fin ne by (simp add: card_gt_0_iff)
  have b: "length ?b = card X" using A by (simp add: build_b_def np_ones_def is_matrix_def)
  obtain J h offset where enc: "encoder ?A ?b = Inr (J, h, offset)"
    using encoder_entries[OF A m b] by blast
  have "penalty J h offset s = residual_sq ?A ?b s
      \<and> (penalty J h offset s = 0 \<longleftrightarrow> matvec ?A s = ?b)
      \<and> (binary s \<longrightarrow> (penalty J h offset s = 0 \<longleftrightarrow> exact_cover S X s))"
    if s: "length s = length S" for s
  proof -
    have p: "penalty J h offset s = residual_sq ?A ?b s"
      by (rule penalty_identity[OF A m b s enc])
    have z: "penalty J h offset s = 0 \<longleftrightarrow> matvec ?A s = ?b"
      unfolding p by (rule residual_sq_zero_iff[OF A b s])
    show ?thesis
      using p z matvec_build_A_exact_cover[OF it _ s] by blast
  qed
  with enc show ?thesis by blast
qed

theorem penalty_is_squared_residual_witness:
  "py_iter sorted_list_of_set X_tutorial \<and> X_tutorial \<noteq> {}
   \<and> length s_01 = length S_tutorial \<and> binary s_01 \<and> exact_cover S_tutorial X_tutorial s_01
   \<and> (\<exists>J h offset.
        encoder (build_A sorted_list_of_set S_tutorial X_tutorial)
          (build_b (build_A sorted_list_of_set S_tutorial X_tutorial)) = Inr (J, h, offset)
        \<and> penalty J h offset s_01 = 0)"
proof -
  have len: "length s_01 = length S_tutorial"
    by (simp add: s_01_def length_S_tutorial)
  from penalty_is_squared_residual[OF py_iter_X_tutorial X_tutorial_nonempty, of S_tutorial]
  obtain J h offset where
    enc: "encoder (build_A sorted_list_of_set S_tutorial X_tutorial)
            (build_b (build_A sorted_list_of_set S_tutorial X_tutorial)) = Inr (J, h, offset)"
    and all: "\<And>s. length s = length S_tutorial \<Longrightarrow> binary s \<Longrightarrow>
               (penalty J h offset s = 0 \<longleftrightarrow> exact_cover S_tutorial X_tutorial s)"
    by blast
  have "penalty J h offset s_01 = 0"
    using all[OF len binary_s_01] exact_cover_s_01 by simp
  with enc len show ?thesis
    using py_iter_X_tutorial X_tutorial_nonempty binary_s_01 exact_cover_s_01 by blast
qed

section \<open>Folding the linear terms into the diagonal\<close>

lemma is_matrix_np_diag: "is_matrix (length v) (length v) (np_diag v)"
  by (simp add: is_matrix_def np_diag_def list_all_iff)

lemma np_diag_nth:
  "i < length v \<Longrightarrow> j < length v \<Longrightarrow> np_diag v ! i ! j = (if i = j then v ! i else 0)"
  by (simp add: np_diag_def)

lemma is_matrix_madd:
  "is_matrix r c M \<Longrightarrow> is_matrix r c N \<Longrightarrow> is_matrix r c (madd M N)"
  by (auto simp: is_matrix_def madd_def list_all_length)

lemma madd_nth:
  "is_matrix r c M \<Longrightarrow> is_matrix r c N \<Longrightarrow> i < r \<Longrightarrow> j < c \<Longrightarrow>
   madd M N ! i ! j = M ! i ! j + N ! i ! j"
  by (simp add: is_matrix_def madd_def list_all_length)

lemma is_matrix_mscale: "is_matrix r c M \<Longrightarrow> is_matrix r c (mscale a M)"
  by (simp add: is_matrix_def mscale_def scale_def list_all_iff)

lemma mscale_nth:
  "is_matrix r c M \<Longrightarrow> i < r \<Longrightarrow> j < c \<Longrightarrow> mscale a M ! i ! j = a * M ! i ! j"
  by (simp add: is_matrix_def mscale_def scale_def list_all_length)

lemma qform_madd:
  assumes M: "is_matrix n n M" and N: "is_matrix n n N" and s: "length s = n"
  shows "qform s (madd M N) = qform s M + qform s N"
proof -
  have "qform s (madd M N) = (\<Sum>j<n. (\<Sum>i<n. s ! i * madd M N ! i ! j) * s ! j)"
    by (rule qform_matrix[OF is_matrix_madd[OF M N] s])
  also have "\<dots> = (\<Sum>j<n. (\<Sum>i<n. s ! i * M ! i ! j) * s ! j + (\<Sum>i<n. s ! i * N ! i ! j) * s ! j)"
  proof (rule sum.cong[OF refl])
    fix j assume "j \<in> {..<n}"
    then have j: "j < n" by simp
    have "(\<Sum>i<n. s ! i * madd M N ! i ! j) = (\<Sum>i<n. s ! i * M ! i ! j + s ! i * N ! i ! j)"
      using j by (intro sum.cong refl) (simp add: madd_nth[OF M N] distrib_left)
    then show "(\<Sum>i<n. s ! i * madd M N ! i ! j) * s ! j
             = (\<Sum>i<n. s ! i * M ! i ! j) * s ! j + (\<Sum>i<n. s ! i * N ! i ! j) * s ! j"
      by (simp add: sum.distrib distrib_right)
  qed
  also have "\<dots> = qform s M + qform s N"
    by (simp add: sum.distrib qform_matrix[OF M s] qform_matrix[OF N s])
  finally show ?thesis .
qed

lemma qform_np_diag:
  assumes "length s = length v"
  shows "qform s (np_diag v) = (\<Sum>j<length v. v ! j * (s ! j * s ! j))"
proof -
  have "qform s (np_diag v) = (\<Sum>j<length v. (\<Sum>i<length v. s ! i * np_diag v ! i ! j) * s ! j)"
    by (rule qform_matrix[OF is_matrix_np_diag assms])
  also have "\<dots> = (\<Sum>j<length v. v ! j * (s ! j * s ! j))"
  proof (rule sum.cong[OF refl])
    fix j assume "j \<in> {..<length v}"
    then have j: "j < length v" by simp
    have "(\<Sum>i<length v. s ! i * np_diag v ! i ! j) = (\<Sum>i<length v. if i = j then s ! j * v ! j else 0)"
      using j by (intro sum.cong refl) (simp add: np_diag_nth)
    also have "\<dots> = s ! j * v ! j"
      using j by simp
    finally show "(\<Sum>i<length v. s ! i * np_diag v ! i ! j) * s ! j = v ! j * (s ! j * s ! j)"
      by simp
  qed
  finally show ?thesis .
qed

lemma binary_square: "binary s \<Longrightarrow> j < length s \<Longrightarrow> s ! j * s ! j = s ! j"
  using binary_nth by fastforce

lemma qform_np_diag_binary:
  assumes "length s = length v" "binary s"
  shows "qform s (np_diag v) = dot v s"
proof -
  have "qform s (np_diag v) = (\<Sum>j<length v. v ! j * (s ! j * s ! j))"
    by (rule qform_np_diag[OF assms(1)])
  also have "\<dots> = (\<Sum>j<length v. v ! j * s ! j)"
    using assms by (intro sum.cong refl) (simp add: binary_square)
  also have "\<dots> = dot v s"
    using assms by (simp add: dot_sum)
  finally show ?thesis .
qed

lemma length_first_column: "length (first_column h) = length h"
  by (simp add: first_column_def)

lemma build_P_value:
  assumes J: "is_matrix n n J" and h: "length h = n" and s: "length s = n" and bin: "binary s"
  shows "qform s (build_P J h) = qform s J + dot (first_column h) s"
proof -
  have d: "is_matrix n n (np_diag (first_column h))"
    using is_matrix_np_diag[of "first_column h"] h by (simp add: length_first_column)
  have "qform s (build_P J h) = qform s J + qform s (np_diag (first_column h))"
    unfolding build_P_def by (rule qform_madd[OF J d s])
  also have "qform s (np_diag (first_column h)) = dot (first_column h) s"
    using h s bin by (intro qform_np_diag_binary) (simp_all add: length_first_column)
  finally show ?thesis .
qed

lemma encoder_shapes:
  assumes A: "is_matrix m n A" and m: "0 < m" and b: "length b = m"
    and enc: "encoder A b = Inr (J, h, offset)"
  shows "is_matrix n n J" and "is_matrix n 1 h" and "\<forall>i<n. \<forall>j<n. J ! i ! j = J ! j ! i"
proof -
  from enc encoder_entries[OF A m b]
  have J: "J = map (\<lambda>i. map (\<lambda>j. \<Sum>k<m. A ! k ! i * A ! k ! j) [0..<n]) [0..<n]"
    and h: "h = map (\<lambda>j. [\<Sum>k<m. (- 2 * b ! k) * A ! k ! j]) [0..<n]"
    by simp_all
  show "is_matrix n n J" by (simp add: J is_matrix_def list_all_iff)
  show "is_matrix n 1 h" by (simp add: h is_matrix_def list_all_iff)
  show "\<forall>i<n. \<forall>j<n. J ! i ! j = J ! j ! i" by (simp add: J mult.commute)
qed

lemma tutorial_encoder_returns:
  "\<exists>J h offset.
     encoder (build_A sorted_list_of_set S_tutorial X_tutorial)
       (build_b (build_A sorted_list_of_set S_tutorial X_tutorial)) = Inr (J, h, offset)
     \<and> is_matrix 9 9 J \<and> is_matrix 9 1 h"
proof -
  let ?A = "build_A sorted_list_of_set S_tutorial X_tutorial"
  have A: "is_matrix 6 9 ?A"
    using is_matrix_build_A[OF py_iter_X_tutorial, of S_tutorial]
    by (simp add: card_X_tutorial length_S_tutorial)
  have b: "length (build_b ?A) = 6"
    using A by (simp add: build_b_def np_ones_def is_matrix_def)
  obtain J h offset where enc: "encoder ?A (build_b ?A) = Inr (J, h, offset)"
    using encoder_entries[OF A _ b] by auto
  from encoder_shapes(1,2)[OF A _ b enc] enc show ?thesis by auto
qed

text \<open>
  Claim C5. For a square \<open>J\<close> and a column \<open>h\<close> of the same size, \<open>P = J + diag(h)\<close>
  takes on every binary \<open>s\<close> the value \<open>s\<^sup>T J s + h \<cdot> s\<close>; hence a binary \<open>s\<close> is
  no worse than a binary \<open>t\<close> for \<open>P\<close> exactly when it is no worse for the
  quadratic-plus-linear form.
\<close>

theorem folding_linear_terms:
  assumes J: "is_matrix n n J" and h: "is_matrix n 1 h" and s: "length s = n" and bin: "binary s"
  shows "qform s (build_P J h) = qform s J + dot (first_column h) s
       \<and> (\<forall>t. length t = n \<and> binary t \<longrightarrow>
            (qform s (build_P J h) \<le> qform t (build_P J h)
              \<longleftrightarrow> qform s J + dot (first_column h) s \<le> qform t J + dot (first_column h) t))"
proof -
  have hl: "length h = n" using h by (simp add: is_matrix_def)
  have "qform t (build_P J h) = qform t J + dot (first_column h) t"
    if "length t = n" "binary t" for t
    using that by (intro build_P_value[OF J hl])
  then show ?thesis using s bin by simp
qed

theorem folding_linear_terms_witness:
  "length s_01 = 9 \<and> binary s_01
   \<and> (\<exists>J h offset.
        encoder (build_A sorted_list_of_set S_tutorial X_tutorial)
          (build_b (build_A sorted_list_of_set S_tutorial X_tutorial)) = Inr (J, h, offset)
        \<and> is_matrix 9 9 J \<and> is_matrix 9 1 h
        \<and> qform s_01 (build_P J h) = qform s_01 J + dot (first_column h) s_01)"
proof -
  have len: "length s_01 = 9" by (simp add: s_01_def)
  from tutorial_encoder_returns obtain J h offset where
    enc: "encoder (build_A sorted_list_of_set S_tutorial X_tutorial)
            (build_b (build_A sorted_list_of_set S_tutorial X_tutorial)) = Inr (J, h, offset)"
    and J: "is_matrix 9 9 J" and h: "is_matrix 9 1 h"
    by blast
  from folding_linear_terms[OF J h len binary_s_01]
  have "qform s_01 (build_P J h) = qform s_01 J + dot (first_column h) s_01" by blast
  with enc J h len binary_s_01 show ?thesis by blast
qed

lemma selected_sum:
  "(\<Sum>j<n. if P j then f j else (0::real)) = sum_list (map f (filter P [0..<n]))"
  by (induction n) auto

lemma dot_selected:
  assumes "length s = length S" "binary s" "length S \<le> length W"
  shows "dot (map (\<lambda>i. W ! i) [0..<length S]) s = sum_list (map (\<lambda>i. W ! i) (selected_sets S s))"
proof -
  have "dot (map (\<lambda>i. W ! i) [0..<length S]) s = (\<Sum>j<length S. W ! j * s ! j)"
    using assms by (simp add: dot_sum)
  also have "\<dots> = (\<Sum>j<length S. if s ! j = 1 then W ! j else 0)"
    using binary_nth[OF assms(2)] assms(1) by (intro sum.cong refl) auto
  also have "\<dots> = sum_list (map (\<lambda>i. W ! i) (selected_sets S s))"
    by (simp add: selected_sum selected_sets_def)
  finally show ?thesis .
qed

text \<open>
  Over the reals, the quadratic form of \<open>diag(W)\<close> at a binary vector is the sum of
  the weights at the indices selected. numpy's value of \<open>sample.T@objective@sample\<close>
  agrees with it only where its own arithmetic neither rounds nor wraps around.
\<close>

lemma qform_objective_exact:
  assumes obj: "build_objective W S = Inr objective" and s: "length s = length S" and bin: "binary s"
  shows "qform s objective = sum_list (map (\<lambda>i. W ! i) (selected_sets S s))"
proof -
  let ?w = "map (\<lambda>i. W ! i) [0..<length S]"
  from obj have le: "length S \<le> length W" and o: "objective = np_diag ?w"
    by (auto simp: build_objective_def split: if_splits)
  have "qform s objective = dot ?w s"
    unfolding o using s bin by (intro qform_np_diag_binary) simp_all
  then show ?thesis
    by (simp add: dot_selected[OF s bin le])
qed

lemma selected_s_01: "selected_sets S_tutorial s_01 = [0, 1]"
  by code_simp

section \<open>Shapes of the uploaded matrices\<close>

lemma square_symmetricI:
  assumes "is_matrix n n M" "\<And>i j. i < n \<Longrightarrow> j < n \<Longrightarrow> M ! i ! j = M ! j ! i"
  shows "square_symmetric M"
  using assms by (simp add: square_symmetric_def symmetric_def is_matrix_def list_all_iff)

lemma not_square_symmetric:
  assumes "is_matrix r c M" "0 < r" "r \<noteq> c"
  shows "\<not> square_symmetric M"
proof
  assume "square_symmetric M"
  then have "is_matrix r r M" using assms(1) by (simp add: square_symmetric_def is_matrix_def)
  then have "length (M ! 0) = r" using assms(2) by (rule is_matrix_nth)
  moreover have "length (M ! 0) = c" using assms(1,2) by (rule is_matrix_nth)
  ultimately show False using assms(3) by simp
qed

lemma universe_nonempty_sets: "universe S \<noteq> {} \<Longrightarrow> 0 < length S"
  by (auto simp: universe_eq)

lemma np_max_returns:
  "is_matrix n n M \<Longrightarrow> 0 < n \<Longrightarrow> \<exists>alpha. np_max M = Inr alpha"
  by (cases M; cases "hd M") (auto simp: np_max_def is_matrix_def split: list.splits)

lemma build_P_square_symmetric:
  assumes A: "is_matrix m n A" and m: "0 < m" and b: "length b = m"
    and enc: "encoder A b = Inr (J, h, offset)"
  shows "is_matrix n n (build_P J h)"
    and "\<And>i j. i < n \<Longrightarrow> j < n \<Longrightarrow> build_P J h ! i ! j = build_P J h ! j ! i"
proof -
  note sh = encoder_shapes[OF A m b enc]
  have hl: "length (first_column h) = n" using sh(2) by (simp add: length_first_column is_matrix_def)
  have d: "is_matrix n n (np_diag (first_column h))"
    using is_matrix_np_diag[of "first_column h"] by (simp add: hl)
  show "is_matrix n n (build_P J h)"
    unfolding build_P_def by (rule is_matrix_madd[OF sh(1) d])
  fix i j assume "i < n" "j < n"
  then show "build_P J h ! i ! j = build_P J h ! j ! i"
    using sh(3) by (simp add: build_P_def madd_nth[OF sh(1) d] np_diag_nth hl)
qed

lemma build_Q_square_symmetric:
  assumes P: "is_matrix n n P" and Ps: "\<And>i j. i < n \<Longrightarrow> j < n \<Longrightarrow> P ! i ! j = P ! j ! i"
    and n: "0 < n" and w: "length w = n"
  shows "\<exists>Q. build_Q (np_diag w) P = Inr Q \<and> square_symmetric Q"
proof -
  have d: "is_matrix n n (np_diag w)" using is_matrix_np_diag[of w] by (simp add: w)
  obtain alpha where a: "np_max (np_diag w) = Inr alpha"
    using np_max_returns[OF d n] by blast
  have aP: "is_matrix n n (mscale alpha P)" using P by (rule is_matrix_mscale)
  have "square_symmetric (madd (np_diag w) (mscale alpha P))"
  proof (rule square_symmetricI[OF is_matrix_madd[OF d aP]])
    fix i j assume "i < n" "j < n"
    then show "madd (np_diag w) (mscale alpha P) ! i ! j = madd (np_diag w) (mscale alpha P) ! j ! i"
      using Ps by (simp add: madd_nth[OF d aP] mscale_nth[OF P] np_diag_nth w)
  qed
  then show ?thesis by (simp add: build_Q_def a)
qed

lemma build_H_stack:
  assumes C: "shape0 C = n" "length (entries C) = n" and J: "is_matrix n c J"
  shows "build_H C J = Inr (map2 (#) (entries C) J)"
    and "is_matrix n (Suc c) (map2 (#) (entries C) J)"
proof -
  have "map2 (@) (reshape_col (entries C)) J = map2 (#) (entries C) J"
    by (simp add: reshape_col_def zip_map1 split_def)
  then show "build_H C J = Inr (map2 (#) (entries C) J)"
    using C J by (simp add: build_H_def reshape_n_1_def hstack_def reshape_col_def is_matrix_def)
  show "is_matrix n (Suc c) (map2 (#) (entries C) J)"
    using C J by (auto simp: is_matrix_def list_all_length)
qed

lemma build_H_qudit:
  "build_H h_qudit J_qudit = Inr [[- 1, 0, 1, 1], [0, 1, 0, 1], [0, 1, 1, 0]]"
  by (simp add: build_H_def h_qudit_def J_qudit_def shape0_def reshape_n_1_def entries_def
      hstack_def reshape_col_def)

theorem hamiltonian_data_square_counterexample:
  "build_H h_qudit J_qudit = Inr [[- 1, 0, 1, 1], [0, 1, 0, 1], [0, 1, 1, 0]]
   \<and> \<not> square_symmetric [[- 1, 0, 1, 1], [0, 1, 0, 1], [0, 1, 1, 0]]"
  by (simp add: build_H_qudit square_symmetric_def is_matrix_def)

text \<open>
  Claim C4, amended. The penalty QUBO \<open>P\<close> and the combined QUBO \<open>Q\<close> are square and
  symmetric. The Hamiltonian data \<open>H = [C | J]\<close> of \<open>sample_hamiltonian\<close> has \<open>n\<close> rows
  and \<open>n + 1\<close> columns, row \<open>i\<close> being the entry \<open>i\<close> of \<open>C\<close> followed by row \<open>i\<close> of
  \<open>J\<close>: it is not square.
\<close>

theorem uploaded_matrix_shapes:
  assumes X: "X = universe S" and it: "py_iter iter X" and ne: "X \<noteq> {}"
    and enc: "encoder (build_A iter S X) (build_b (build_A iter S X)) = Inr (J, h, offset)"
    and obj: "build_objective W S = Inr objective"
    and n: "0 < n" and C: "shape0 C = n" "length (entries C) = n" and J': "is_matrix n n J'"
  shows "square_symmetric (build_P J h)
       \<and> (\<exists>Q. build_Q objective (build_P J h) = Inr Q \<and> square_symmetric Q)
       \<and> (\<exists>H. build_H C J' = Inr H \<and> is_matrix n (n + 1) H \<and> \<not> square_symmetric H
              \<and> (\<forall>i<n. H ! i = entries C ! i # J' ! i))"
proof -
  let ?A = "build_A iter S X"
  have A: "is_matrix (card X) (length S) ?A" using it by (rule is_matrix_build_A)
  have fin: "finite X" using it by (metis List.finite_set py_iter_def)
  have m: "0 < card X" using fin ne by (simp add: card_gt_0_iff)
  have b: "length (build_b ?A) = card X" using A by (simp add: build_b_def np_ones_def is_matrix_def)
  note P = build_P_square_symmetric[OF A m b enc]
  have 1: "square_symmetric (build_P J h)"
    using P by (rule square_symmetricI)
  have S: "0 < length S" using ne unfolding X by (rule universe_nonempty_sets)
  from obj have o: "objective = np_diag (map (\<lambda>i. W ! i) [0..<length S])"
    by (auto simp: build_objective_def split: if_splits)
  have 2: "\<exists>Q. build_Q objective (build_P J h) = Inr Q \<and> square_symmetric Q"
    unfolding o using P S by (intro build_Q_square_symmetric) simp_all
  note H = build_H_stack[OF C J']
  have Hm: "is_matrix n (n + 1) (map2 (#) (entries C) J')" using H(2) by simp
  have rows: "\<forall>i<n. map2 (#) (entries C) J' ! i = entries C ! i # J' ! i"
    using C J' by (simp add: is_matrix_def)
  have "\<not> square_symmetric (map2 (#) (entries C) J')"
    using Hm n by (rule not_square_symmetric) simp
  with H(1) Hm rows have 3: "\<exists>H. build_H C J' = Inr H \<and> is_matrix n (n + 1) H \<and> \<not> square_symmetric H
              \<and> (\<forall>i<n. H ! i = entries C ! i # J' ! i)"
    by blast
  from 1 2 3 show ?thesis by blast
qed

lemma build_objective_tutorial: "build_objective W_tutorial S_tutorial = Inr (np_diag W_tutorial)"
proof -
  have w: "map (\<lambda>i. W_tutorial ! i) [0..<9] = W_tutorial"
    by (simp add: W_tutorial_def upt_rec[of _ 9] numeral_eq_Suc)
  show ?thesis
    by (simp add: build_objective_def length_S_tutorial w) (simp add: W_tutorial_def)
qed

theorem uploaded_matrix_shapes_witness:
  "\<exists>J h offset.
     encoder (build_A sorted_list_of_set S_tutorial X_tutorial)
       (build_b (build_A sorted_list_of_set S_tutorial X_tutorial)) = Inr (J, h, offset)
     \<and> square_symmetric (build_P J h)
     \<and> (\<exists>Q. build_Q (np_diag W_tutorial) (build_P J h) = Inr Q \<and> square_symmetric Q)
     \<and> (\<exists>H. build_H h_qudit J_qudit = Inr H \<and> is_matrix 3 4 H \<and> \<not> square_symmetric H)"
proof -
  from tutorial_encoder_returns obtain J h offset where
    enc: "encoder (build_A sorted_list_of_set S_tutorial X_tutorial)
            (build_b (build_A sorted_list_of_set S_tutorial X_tutorial)) = Inr (J, h, offset)"
    by blast
  have C: "shape0 h_qudit = 3" "length (entries h_qudit) = 3"
    by (simp_all add: h_qudit_def shape0_def entries_def)
  have Jq: "is_matrix 3 3 J_qudit" by (simp add: J_qudit_def is_matrix_def)
  have X: "X_tutorial = universe S_tutorial" by (simp add: universe_tutorial)
  from uploaded_matrix_shapes[OF X py_iter_X_tutorial X_tutorial_nonempty enc
      build_objective_tutorial _ C Jq]
  have "square_symmetric (build_P J h)
     \<and> (\<exists>Q. build_Q (np_diag W_tutorial) (build_P J h) = Inr Q \<and> square_symmetric Q)
     \<and> (\<exists>H. build_H h_qudit J_qudit = Inr H \<and> is_matrix 3 4 H \<and> \<not> square_symmetric H)"
    by auto
  with enc show ?thesis by blast
qed

section \<open>The result check\<close>

lemma for_range_select:
  assumes "\<forall>i\<in>set ns. i < length sample"
  shows "for_range (select_body S iter sample) ns (out, T, ms)
       = ((out @ map Selected (filter (\<lambda>i. sample ! i = 1) ns),
           T \<union> (\<Union>i\<in>set (filter (\<lambda>i. sample ! i = 1) ns). S ! i),
           ms @ concat (map (\<lambda>i. iter (S ! i)) (filter (\<lambda>i. sample ! i = 1) ns))), None)"
  using assms
proof (induction ns arbitrary: out T ms)
  case Nil
  then show ?case by simp
next
  case (Cons i ns)
  then have i: "i < length sample" and rest: "\<forall>i\<in>set ns. i < length sample" by simp_all
  show ?case
  proof (cases "sample ! i = 1")
    case True
    then show ?thesis
      using i Cons.IH[OF rest] by (simp add: select_body_def Un_assoc)
  next
    case False
    then show ?thesis
      using i Cons.IH[OF rest] by (simp add: select_body_def)
  qed
qed

lemma sample_block_lines:
  assumes j: "j < length (energies res)" "j < length (counts res)"
    and obj: "objective_lines quad objective s = Inr obj"
    and len: "length S \<le> length s" and X: "card X \<noteq> 0"
  shows "sample_block S X iter quad objective res j s
       = ([QUBO_value (energies res ! j), Times_sample_found (counts res ! j)] @ obj
            @ [Selected_Sets] @ map Selected (selected_sets S s)
            @ [Newline,
               Set_coverage (100 * real (card (\<Union>i\<in>set (selected_sets S s). S ! i)) / real (card X)),
               Partition_found (card (\<Union>i\<in>set (selected_sets S s). S ! i)
                  = length (concat (map (\<lambda>i. iter (S ! i)) (selected_sets S s))))], None)"
proof -
  have r: "\<forall>i\<in>set [0..<length S]. i < length s" using len by simp
  show ?thesis
    using j obj X
    by (simp add: sample_block_def Let_def for_range_select[OF r] selected_sets_def)
qed

lemma card_UN_list_le:
  assumes "\<forall>i\<in>set sel. finite (F i)"
  shows "card (\<Union>i\<in>set sel. F i) \<le> sum_list (map (\<lambda>i. card (F i)) sel)"
  using assms
proof (induction sel)
  case Nil
  then show ?case by simp
next
  case (Cons a sel)
  have "card (F a \<union> (\<Union>i\<in>set sel. F i)) \<le> card (F a) + card (\<Union>i\<in>set sel. F i)"
    by (rule card_Un_le)
  with Cons show ?case by simp
qed

lemma card_UN_list_eq_iff:
  assumes "distinct sel" "\<forall>i\<in>set sel. finite (F i)"
  shows "card (\<Union>i\<in>set sel. F i) = sum_list (map (\<lambda>i. card (F i)) sel)
         \<longleftrightarrow> (\<forall>i\<in>set sel. \<forall>j\<in>set sel. i = j \<or> F i \<inter> F j = {})"
  using assms
proof (induction sel)
  case Nil
  then show ?case by simp
next
  case (Cons a sel)
  let ?U = "\<Union>i\<in>set sel. F i"
  have finU: "finite ?U" and finA: "finite (F a)" using Cons.prems by auto
  have le: "card ?U \<le> sum_list (map (\<lambda>i. card (F i)) sel)"
    using Cons.prems by (intro card_UN_list_le) simp
  have un: "card (F a) + card ?U = card (F a \<union> ?U) + card (F a \<inter> ?U)"
    using finA finU by (rule card_Un_Int)
  have zero: "card (F a \<inter> ?U) = 0 \<longleftrightarrow> (\<forall>j\<in>set sel. F a \<inter> F j = {})"
    using finA by auto
  have IH: "card ?U = sum_list (map (\<lambda>i. card (F i)) sel)
         \<longleftrightarrow> (\<forall>i\<in>set sel. \<forall>j\<in>set sel. i = j \<or> F i \<inter> F j = {})"
    using Cons by simp
  have "card (F a \<union> ?U) = card (F a) + sum_list (map (\<lambda>i. card (F i)) sel)
        \<longleftrightarrow> card (F a \<inter> ?U) = 0 \<and> card ?U = sum_list (map (\<lambda>i. card (F i)) sel)"
    using le un by linarith
  also have "\<dots> \<longleftrightarrow> (\<forall>j\<in>set sel. F a \<inter> F j = {})
                   \<and> (\<forall>i\<in>set sel. \<forall>j\<in>set sel. i = j \<or> F i \<inter> F j = {})"
    by (simp only: zero IH)
  also have "\<dots> \<longleftrightarrow> (\<forall>i\<in>set (a # sel). \<forall>j\<in>set (a # sel). i = j \<or> F i \<inter> F j = {})"
  proof -
    define D where "D i j \<longleftrightarrow> i = j \<or> F i \<inter> F j = {}" for i j
    have sym: "D i j \<longleftrightarrow> D j i" for i j by (auto simp: D_def)
    have refl: "D i i" for i by (simp add: D_def)
    have "a \<notin> set sel" using Cons.prems(1) by simp
    then have fa: "F a \<inter> F j = {} \<longleftrightarrow> D a j" if "j \<in> set sel" for j
      using that by (auto simp: D_def)
    have "(\<forall>j\<in>set sel. F a \<inter> F j = {}) \<and> (\<forall>i\<in>set sel. \<forall>j\<in>set sel. i = j \<or> F i \<inter> F j = {})
          \<longleftrightarrow> (\<forall>j\<in>set sel. D a j) \<and> (\<forall>i\<in>set sel. \<forall>j\<in>set sel. D i j)"
      using fa by (simp add: D_def)
    also have "\<dots> \<longleftrightarrow> (\<forall>i\<in>set (a # sel). \<forall>j\<in>set (a # sel). D i j)"
      using sym refl by (auto simp: ball_conj_distrib)
    finally show ?thesis by (simp only: D_def)
  qed
  finally show ?case by simp
qed

lemma length_members:
  assumes "\<forall>i\<in>set sel. py_iter iter (S ! i)"
  shows "length (concat (map (\<lambda>i. iter (S ! i)) sel)) = sum_list (map (\<lambda>i. card (S ! i)) sel)"
  using assms by (induction sel) (simp_all add: py_iter_length)

lemma selected_sets_props:
  "distinct (selected_sets S s)" "set (selected_sets S s) = {i. i < length S \<and> s ! i = 1}"
  by (auto simp: selected_sets_def)

lemma py_iter_finite: "py_iter iter A \<Longrightarrow> finite A"
  by (metis List.finite_set py_iter_def)

lemma partition_found_iff:
  assumes it: "list_all (py_iter iter) S"
  shows "card (\<Union>i\<in>set (selected_sets S s). S ! i)
           = length (concat (map (\<lambda>i. iter (S ! i)) (selected_sets S s)))
         \<longleftrightarrow> pairwise_disjoint S (selected_sets S s)"
proof -
  have p: "\<forall>i\<in>set (selected_sets S s). py_iter iter (S ! i)"
    using it by (simp add: selected_sets_props list_all_length)
  then have f: "\<forall>i\<in>set (selected_sets S s). finite (S ! i)"
    using py_iter_finite by blast
  show ?thesis
    unfolding length_members[OF p]
    using card_UN_list_eq_iff[OF selected_sets_props(1) f]
    by (simp add: pairwise_disjoint_def list_all_iff)
qed

lemma cover_count_selected:
  "cover_count S s x = card {i \<in> set (selected_sets S s). x \<in> S ! i}"
proof -
  have "cover_count S s x = length (filter (\<lambda>i. x \<in> S ! i) (selected_sets S s))"
    by (simp add: cover_count_def selected_sets_def conj_commute)
  also have "\<dots> = card (set (filter (\<lambda>i. x \<in> S ! i) (selected_sets S s)))"
    by (rule distinct_card[symmetric]) (simp add: selected_sets_props(1))
  finally show ?thesis by simp
qed

lemma selected_union_subset: "(\<Union>i\<in>set (selected_sets S s). S ! i) \<subseteq> universe S"
  by (force simp: universe_eq selected_sets_props)

lemma exact_cover_iff:
  "exact_cover S (universe S) s
   \<longleftrightarrow> (\<Union>i\<in>set (selected_sets S s). S ! i) = universe S
       \<and> pairwise_disjoint S (selected_sets S s)"
proof -
  let ?sel = "set (selected_sets S s)"
  have one: "cover_count S s x = 1 \<longleftrightarrow> (\<exists>!i. i \<in> ?sel \<and> x \<in> S ! i)" for x
  proof -
    have "cover_count S s x = 1 \<longleftrightarrow> (\<exists>i. {i \<in> ?sel. x \<in> S ! i} = {i})"
      by (simp add: cover_count_selected card_1_singleton_iff)
    also have "\<dots> \<longleftrightarrow> (\<exists>!i. i \<in> ?sel \<and> x \<in> S ! i)"
      by (simp add: set_eq_iff) metis
    finally show ?thesis .
  qed
  have dis: "pairwise_disjoint S (selected_sets S s)
           \<longleftrightarrow> (\<forall>i\<in>?sel. \<forall>j\<in>?sel. i = j \<or> S ! i \<inter> S ! j = {})"
    by (simp add: pairwise_disjoint_def list_all_iff)
  show ?thesis
  proof
    assume ec: "exact_cover S (universe S) s"
    then have ex: "\<And>x. x \<in> universe S \<Longrightarrow> \<exists>!i. i \<in> ?sel \<and> x \<in> S ! i"
      unfolding exact_cover_def one by blast
    have "universe S \<subseteq> (\<Union>i\<in>?sel. S ! i)"
      using ex by blast
    then have cov: "(\<Union>i\<in>?sel. S ! i) = universe S"
      using selected_union_subset[of S s] by blast
    have "S ! i \<inter> S ! j = {}" if "i \<in> ?sel" "j \<in> ?sel" "i \<noteq> j" for i j
    proof (rule ccontr)
      assume "S ! i \<inter> S ! j \<noteq> {}"
      then obtain y where y: "y \<in> S ! i" "y \<in> S ! j" by blast
      then have "y \<in> universe S" using that(1) selected_union_subset[of S s] by blast
      from ex[OF this] that y show False by blast
    qed
    then show "(\<Union>i\<in>?sel. S ! i) = universe S \<and> pairwise_disjoint S (selected_sets S s)"
      using cov unfolding dis by blast
  next
    assume a: "(\<Union>i\<in>?sel. S ! i) = universe S \<and> pairwise_disjoint S (selected_sets S s)"
    have "\<exists>!i. i \<in> ?sel \<and> x \<in> S ! i" if "x \<in> universe S" for x
    proof -
      from that a obtain i where i: "i \<in> ?sel" "x \<in> S ! i" by blast
      moreover have "j = i" if "j \<in> ?sel" "x \<in> S ! j" for j
        using a i that unfolding dis by blast
      ultimately show ?thesis by blast
    qed
    then show "exact_cover S (universe S) s"
      unfolding exact_cover_def one by blast
  qed
qed

lemma finite_universe: "list_all (py_iter iter) S \<Longrightarrow> finite (universe S)"
  by (auto simp: universe_eq list_all_iff dest: py_iter_finite)

lemma coverage_full_iff:
  assumes fin: "finite X" and ne: "X \<noteq> {}" and sub: "T \<subseteq> X"
  shows "100 * real (card T) / real (card X) = 100 \<longleftrightarrow> T = X"
proof -
  have pos: "0 < card X" using fin ne by (simp add: card_gt_0_iff)
  then have "100 * real (card T) / real (card X) = 100 \<longleftrightarrow> card T = card X"
    by (simp add: field_simps)
  also have "\<dots> \<longleftrightarrow> T = X"
    using fin sub by (metis card_subset_eq)
  finally show ?thesis .
qed

lemma enumerate_loop_append:
  assumes "\<forall>i<length xs. snd (body (j + i) (xs ! i)) = None"
  shows "enumerate_loop body j (xs @ ys)
       = (concat (map (\<lambda>i. fst (body (j + i) (xs ! i))) [0..<length xs])
            @ fst (enumerate_loop body (j + length xs) ys),
          snd (enumerate_loop body (j + length xs) ys))"
  using assms
proof (induction xs arbitrary: j)
  case Nil
  then show ?case by simp
next
  case (Cons x xs)
  from Cons.prems have hd: "snd (body j x) = None"
    by (metis add.right_neutral length_greater_0_conv list.distinct(1) nth_Cons_0)
  have tl: "\<forall>i<length xs. snd (body (Suc j + i) (xs ! i)) = None"
    using Cons.prems by (metis Suc_less_eq add_Suc_shift length_Cons nth_Cons_Suc)
  have m: "map (\<lambda>i. fst (body (j + i) ((x # xs) ! i))) [0..<length (x # xs)]
         = fst (body j x) # map (\<lambda>i. fst (body (Suc j + i) (xs ! i))) [0..<length xs]"
    by (simp add: upt_conv_Cons map_Suc_upt[symmetric] del: upt_Suc)
  obtain out where b: "body j x = (out, None)" using hd by (cases "body j x") simp
  show ?case
    using Cons.IH[OF tl] by (simp only: m) (simp add: b split: prod.splits)
qed

lemma check_result_prefix:
  assumes k: "k < length (samples res)"
    and ok: "\<forall>i\<le>k. snd (sample_block S X iter quad objective res i (samples res ! i)) = None"
  shows "\<exists>rest err.
           check_result S X iter quad res objective
             = (concat (map (\<lambda>i. fst (sample_block S X iter quad objective res i (samples res ! i)))
                  [0..<Suc k]) @ rest, err)
         \<and> (Suc k = length (samples res) \<longrightarrow> rest = [] \<and> err = None)"
proof -
  let ?body = "sample_block S X iter quad objective res"
  let ?xs = "take (Suc k) (samples res)" and ?ys = "drop (Suc k) (samples res)"
  have len: "length ?xs = Suc k" using k by simp
  have nth: "?xs ! i = samples res ! i" if "i < Suc k" for i using that by simp
  have ok': "\<forall>i<length ?xs. snd (?body (0 + i) (?xs ! i)) = None"
    using ok by (simp add: len)
  have "check_result S X iter quad res objective = enumerate_loop ?body 0 (?xs @ ?ys)"
    by (simp add: check_result_def)
  also have "\<dots> = (concat (map (\<lambda>i. fst (?body (0 + i) (?xs ! i))) [0..<length ?xs])
            @ fst (enumerate_loop ?body (0 + length ?xs) ?ys),
          snd (enumerate_loop ?body (0 + length ?xs) ?ys))"
    by (rule enumerate_loop_append[OF ok'])
  also have "map (\<lambda>i. fst (?body (0 + i) (?xs ! i))) [0..<length ?xs]
           = map (\<lambda>i. fst (?body i (samples res ! i))) [0..<Suc k]"
    unfolding len by (rule map_cong[OF refl]) (auto simp: nth)
  finally have eq: "check_result S X iter quad res objective
       = (concat (map (\<lambda>i. fst (?body i (samples res ! i))) [0..<Suc k])
            @ fst (enumerate_loop ?body (0 + length ?xs) ?ys),
          snd (enumerate_loop ?body (0 + length ?xs) ?ys))" .
  have last: "Suc k = length (samples res) \<longrightarrow>
      fst (enumerate_loop ?body (0 + length ?xs) ?ys) = []
      \<and> snd (enumerate_loop ?body (0 + length ?xs) ?ys) = None"
    by simp
  from eq last show ?thesis by blast
qed

lemma selected_sets_zeros: "selected_sets S (replicate (length S) 0) = []"
  by (simp add: selected_sets_def filter_empty_conv)

lemma py_iter_S_tutorial: "list_all (py_iter sorted_list_of_set) S_tutorial"
  by (simp add: S_tutorial_def py_iter_sorted_list)

lemma objective_lines_square:
  assumes "objective = None \<or> (\<exists>M. objective = Some M \<and> is_matrix (length S) (length S) M)"
    and "length s = length S"
  shows "objective_lines quad objective s
       = Inr (case objective of None \<Rightarrow> [] | Some M \<Rightarrow> [Objective_Function_value (quad s M)])"
  using assms by (auto simp: objective_lines_def)

lemma check_result_prefix_lines:
  assumes X: "X = universe S" and ne: "X \<noteq> {}" and it: "list_all (py_iter iter) S"
    and k: "k < length (samples res)"
    and wf: "\<forall>i\<le>k. length (samples res ! i) = length S"
    and en: "k < length (energies res)" and co: "k < length (counts res)"
    and ob: "objective = None \<or> (\<exists>M. objective = Some M \<and> is_matrix (length S) (length S) M)"
  shows "\<exists>rest err.
           check_result S X iter quad res objective
             = (concat (map (\<lambda>i.
            [QUBO_value (energies res ! i), Times_sample_found (counts res ! i)]
            @ (case objective of
                 None \<Rightarrow> []
               | Some M \<Rightarrow> [Objective_Function_value (quad (samples res ! i) M)])
            @ [Selected_Sets] @ map Selected (selected_sets S (samples res ! i))
            @ [Newline,
               Set_coverage
                 (100 * real (card (\<Union>j\<in>set (selected_sets S (samples res ! i)). S ! j))
                    / real (card X)),
               Partition_found
                 (card (\<Union>j\<in>set (selected_sets S (samples res ! i)). S ! j)
                   = length (concat (map (\<lambda>j. iter (S ! j))
                       (selected_sets S (samples res ! i)))))])
          [0..<Suc k]) @ rest, err)
         \<and> (Suc k = length (samples res) \<longrightarrow> rest = [] \<and> err = None)"
proof -
  have fin: "finite X" unfolding X using it by (rule finite_universe)
  have c: "card X \<noteq> 0" using fin ne by simp
  have block: "sample_block S X iter quad objective res i (samples res ! i)
       = ([QUBO_value (energies res ! i), Times_sample_found (counts res ! i)]
            @ (case objective of
                 None \<Rightarrow> []
               | Some M \<Rightarrow> [Objective_Function_value (quad (samples res ! i) M)])
            @ [Selected_Sets] @ map Selected (selected_sets S (samples res ! i))
            @ [Newline,
               Set_coverage
                 (100 * real (card (\<Union>j\<in>set (selected_sets S (samples res ! i)). S ! j))
                    / real (card X)),
               Partition_found
                 (card (\<Union>j\<in>set (selected_sets S (samples res ! i)). S ! j)
                   = length (concat (map (\<lambda>j. iter (S ! j))
                       (selected_sets S (samples res ! i)))))], None)"
    if i: "i \<le> k" for i
  proof -
    have len: "length (samples res ! i) = length S"
      using wf i by simp
    have j: "i < length (energies res)" "i < length (counts res)"
      using i en co by simp_all
    have l: "length S \<le> length (samples res ! i)" using len by simp
    show ?thesis
      by (rule sample_block_lines[OF j objective_lines_square[OF ob len] l c])
  qed
  have ok: "\<forall>i\<le>k. snd (sample_block S X iter quad objective res i (samples res ! i)) = None"
    by (simp add: block)
  have m: "map (\<lambda>i. fst (sample_block S X iter quad objective res i (samples res ! i)))
            [0..<Suc k]
       = map (\<lambda>i.
            [QUBO_value (energies res ! i), Times_sample_found (counts res ! i)]
            @ (case objective of
                 None \<Rightarrow> []
               | Some M \<Rightarrow> [Objective_Function_value (quad (samples res ! i) M)])
            @ [Selected_Sets] @ map Selected (selected_sets S (samples res ! i))
            @ [Newline,
               Set_coverage
                 (100 * real (card (\<Union>j\<in>set (selected_sets S (samples res ! i)). S ! j))
                    / real (card X)),
               Partition_found
                 (card (\<Union>j\<in>set (selected_sets S (samples res ! i)). S ! j)
                   = length (concat (map (\<lambda>j. iter (S ! j))
                       (selected_sets S (samples res ! i)))))])
          [0..<Suc k]"
  proof (rule map_cong[OF refl])
    fix i assume "i \<in> set [0..<Suc k]"
    then have "i \<le> k" by auto
    from block[OF this] show "fst (sample_block S X iter quad objective res i (samples res ! i))
       = [QUBO_value (energies res ! i), Times_sample_found (counts res ! i)]
            @ (case objective of
                 None \<Rightarrow> []
               | Some M \<Rightarrow> [Objective_Function_value (quad (samples res ! i) M)])
            @ [Selected_Sets] @ map Selected (selected_sets S (samples res ! i))
            @ [Newline,
               Set_coverage
                 (100 * real (card (\<Union>j\<in>set (selected_sets S (samples res ! i)). S ! j))
                    / real (card X)),
               Partition_found
                 (card (\<Union>j\<in>set (selected_sets S (samples res ! i)). S ! j)
                   = length (concat (map (\<lambda>j. iter (S ! j))
                       (selected_sets S (samples res ! i)))))]"
      by simp
  qed
  from check_result_prefix[OF k ok] show ?thesis
    unfolding m .
qed

lemma map_upt_Suc_2: "map f [0..<Suc 2] = [f 0, f 1, f 2]"
  by (simp add: upt_rec numeral_eq_Suc)

lemma exact_cover_s_267: "exact_cover S_tutorial X_tutorial s_267"
  by code_simp

lemma exact_cover_s_234: "exact_cover S_tutorial X_tutorial s_234"
  by code_simp

lemma selected_s_267: "selected_sets S_tutorial s_267 = [2, 6, 7]"
  by code_simp

lemma selected_s_234: "selected_sets S_tutorial s_234 = [2, 3, 4]"
  by code_simp

lemma s_zeros_replicate: "s_zeros = replicate (length S_tutorial) 0"
  by (simp add: s_zeros_def length_S_tutorial numeral_eq_Suc)

subsection \<open>The exceptions that end the loop\<close>

text \<open>
  \<open>check_result\<close> handles no exception. A sample shorter than \<open>S\<close>, a missing
  energy or count, an objective of another shape and an empty universe each end the
  loop, and the samples that follow get no line.
\<close>

lemma check_result_missing_energy:
  "check_result S_tutorial X_tutorial sorted_list_of_set quad
     \<lparr>samples = [s_01], energies = [], counts = [1]\<rparr> None
   = ([], Some IndexError)"
  by (simp add: check_result_def sample_block_def)

lemma check_result_objective_shape:
  "check_result S_tutorial X_tutorial sorted_list_of_set quad
     \<lparr>samples = [s_01], energies = [- 6], counts = [1]\<rparr> (Some [[1]])
   = ([QUBO_value (- 6), Times_sample_found 1], Some ValueError)"
  by (simp add: check_result_def sample_block_def objective_lines_def is_matrix_def s_01_def)

lemma check_result_empty_universe:
  "check_result [{}] {} iter quad \<lparr>samples = [[0]], energies = [0], counts = [1]\<rparr> None
   = ([QUBO_value 0, Times_sample_found 1, Selected_Sets, Newline], Some ZeroDivisionError)"
  by (simp add: check_result_def sample_block_def objective_lines_def select_body_def)

subsection \<open>Coverage and partition lines\<close>

theorem check_result_exact_cover_counterexample:
  "check_result S_tutorial X_tutorial sorted_list_of_set qform short_sample_results None
   = ([QUBO_value (- 6), Times_sample_found 1, Selected_Sets], Some IndexError)
   \<and> samples short_sample_results ! 1 = s_01
   \<and> length s_01 = length S_tutorial \<and> binary s_01
   \<and> exact_cover S_tutorial X_tutorial s_01"
proof -
  have "check_result S_tutorial X_tutorial sorted_list_of_set qform short_sample_results None
        = ([QUBO_value (- 6), Times_sample_found 1, Selected_Sets], Some IndexError)"
    by (simp add: check_result_def sample_block_def short_sample_results_def
        objective_lines_def length_S_tutorial select_body_def upt_rec[of 0 9])
  then show ?thesis
    using binary_s_01 exact_cover_s_01
    by (simp add: short_sample_results_def length_S_tutorial) (simp add: s_01_def)
qed

text \<open>
  Claim C1, amended. Let the universe \<open>X\<close> be non-empty, \<open>objective\<close> be \<open>None\<close> or
  square of size \<open>len(S)\<close>, and let the returned sample \<open>s\<close> at position \<open>k\<close> and
  every sample returned before it have one entry for each set, an energy and a count.
  Then \<open>check_result\<close> first prints, for each of these samples in turn, its header
  lines, its selected sets, a coverage line and a partition line; for \<open>s\<close>, and for
  each of them, the coverage line reads 100.0% and the partition line \<open>True\<close> exactly
  when the selected sets are an exact cover of \<open>X\<close>: every element of \<open>X\<close> is in
  exactly one of them. When \<open>s\<close> is the last sample, nothing more is printed and
  nothing is raised.
\<close>

theorem check_result_reports_exact_cover:
  assumes X: "X = universe S" and ne: "X \<noteq> {}" and it: "list_all (py_iter iter) S"
    and k: "k < length (samples res)"
    and wf: "\<forall>i\<le>k. length (samples res ! i) = length S"
    and en: "k < length (energies res)" and co: "k < length (counts res)"
    and ob: "objective = None \<or> (\<exists>M. objective = Some M \<and> is_matrix (length S) (length S) M)"
  shows "\<exists>cov part rest err.
           check_result S X iter quad res objective
             = (concat (map (\<lambda>i.
                  [QUBO_value (energies res ! i), Times_sample_found (counts res ! i)]
                  @ (case objective of
                       None \<Rightarrow> []
                     | Some M \<Rightarrow> [Objective_Function_value (quad (samples res ! i) M)])
                  @ [Selected_Sets] @ map Selected (selected_sets S (samples res ! i))
                  @ [Newline, Set_coverage (cov i), Partition_found (part i)])
                [0..<Suc k]) @ rest, err)
         \<and> (\<forall>i\<le>k. (cov i = 100 \<and> part i) \<longleftrightarrow> exact_cover S X (samples res ! i))
         \<and> (Suc k = length (samples res) \<longrightarrow> rest = [] \<and> err = None)"
proof -
  let ?T = "\<lambda>i. \<Union>j\<in>set (selected_sets S (samples res ! i)). S ! j"
  let ?cov = "\<lambda>i. 100 * real (card (?T i)) / real (card X)"
  let ?part = "\<lambda>i. card (?T i)
      = length (concat (map (\<lambda>j. iter (S ! j)) (selected_sets S (samples res ! i))))"
  have fin: "finite X" unfolding X using it by (rule finite_universe)
  have "(?cov i = 100 \<and> ?part i) \<longleftrightarrow> exact_cover S X (samples res ! i)" for i
  proof -
    have sub: "?T i \<subseteq> X" unfolding X by (rule selected_union_subset)
    show ?thesis
      unfolding coverage_full_iff[OF fin ne sub] partition_found_iff[OF it]
      unfolding X by (rule exact_cover_iff[symmetric])
  qed
  then have q: "\<forall>i\<le>k. (?cov i = 100 \<and> ?part i) \<longleftrightarrow> exact_cover S X (samples res ! i)"
    by blast
  from check_result_prefix_lines[OF X ne it k wf en co ob, of quad]
  obtain rest err where
    eq: "check_result S X iter quad res objective
       = (concat (map (\<lambda>i.
            [QUBO_value (energies res ! i), Times_sample_found (counts res ! i)]
            @ (case objective of
                 None \<Rightarrow> []
               | Some M \<Rightarrow> [Objective_Function_value (quad (samples res ! i) M)])
            @ [Selected_Sets] @ map Selected (selected_sets S (samples res ! i))
            @ [Newline, Set_coverage (?cov i), Partition_found (?part i)])
          [0..<Suc k]) @ rest, err)"
    and last: "Suc k = length (samples res) \<longrightarrow> rest = [] \<and> err = None"
    by blast
  show ?thesis
    by (rule exI[of _ ?cov], rule exI[of _ ?part], rule exI[of _ rest], rule exI[of _ err])
       (rule conjI[OF eq conjI[OF q last]])
qed

theorem check_result_reports_exact_cover_witness:
  "check_result S_tutorial X_tutorial sorted_list_of_set qform penalty_only_results None
   = ([QUBO_value (- 6), Times_sample_found 2, Selected_Sets,
       Selected 2, Selected 6, Selected 7, Newline, Set_coverage 100, Partition_found True,
       QUBO_value (- 6), Times_sample_found 2, Selected_Sets,
       Selected 2, Selected 3, Selected 4, Newline, Set_coverage 100, Partition_found True,
       QUBO_value (- 6), Times_sample_found 1, Selected_Sets,
       Selected 0, Selected 1, Newline, Set_coverage 100, Partition_found True], None)
   \<and> exact_cover S_tutorial X_tutorial s_267
   \<and> exact_cover S_tutorial X_tutorial s_234
   \<and> exact_cover S_tutorial X_tutorial s_01"
proof -
  have X: "X_tutorial = universe S_tutorial" by (simp add: universe_tutorial)
  have all: "list_all (\<lambda>s. length s = length S_tutorial) (samples penalty_only_results)"
    by (simp add: penalty_only_results_def length_S_tutorial s_01_def s_234_def s_267_def)
  have n: "length (samples penalty_only_results) = Suc 2"
    by (simp add: penalty_only_results_def)
  have k: "2 < length (samples penalty_only_results)" by (simp add: n)
  have wf: "\<forall>i\<le>2. length (samples penalty_only_results ! i) = length S_tutorial"
    using all unfolding list_all_length n by simp
  have en: "2 < length (energies penalty_only_results)"
    and co: "2 < length (counts penalty_only_results)"
    by (simp_all add: penalty_only_results_def)
  from check_result_reports_exact_cover[OF X X_tutorial_nonempty py_iter_S_tutorial k wf en co,
      of None qform]
  obtain cov part rest err where
    out: "check_result S_tutorial X_tutorial sorted_list_of_set qform penalty_only_results None
      = (concat (map (\<lambda>i.
           [QUBO_value (energies penalty_only_results ! i),
            Times_sample_found (counts penalty_only_results ! i)]
           @ [] @ [Selected_Sets]
           @ map Selected (selected_sets S_tutorial (samples penalty_only_results ! i))
           @ [Newline, Set_coverage (cov i), Partition_found (part i)])
         [0..<Suc 2]) @ rest, err)"
    and iff: "\<And>i. i \<le> 2 \<Longrightarrow>
      (cov i = 100 \<and> part i)
        \<longleftrightarrow> exact_cover S_tutorial X_tutorial (samples penalty_only_results ! i)"
    and last: "rest = [] \<and> err = None"
    unfolding n by auto
  have 0: "cov 0 = 100" "part 0"
    using iff[of 0] exact_cover_s_267 by (simp_all add: penalty_only_results_def)
  have 1: "cov 1 = 100" "part 1"
    using iff[of 1] exact_cover_s_234 by (simp_all add: penalty_only_results_def)
  have 2: "cov 2 = 100" "part 2"
    using iff[of 2] exact_cover_s_01 by (simp_all add: penalty_only_results_def)
  show ?thesis
    unfolding out map_upt_Suc_2
    using 0 1 2 last exact_cover_s_267 exact_cover_s_234 exact_cover_s_01
    by (simp add: penalty_only_results_def selected_s_01 selected_s_234 selected_s_267)
qed

theorem check_result_partition_counterexample:
  "check_result S_tutorial X_tutorial sorted_list_of_set qform short_sample_zeros_results None
   = ([QUBO_value (- 6), Times_sample_found 1, Selected_Sets], Some IndexError)
   \<and> samples short_sample_zeros_results ! 1 = s_zeros
   \<and> length s_zeros = length S_tutorial \<and> binary s_zeros
   \<and> pairwise_disjoint S_tutorial (selected_sets S_tutorial s_zeros)"
proof -
  have "check_result S_tutorial X_tutorial sorted_list_of_set qform
          short_sample_zeros_results None
        = ([QUBO_value (- 6), Times_sample_found 1, Selected_Sets], Some IndexError)"
    by (simp add: check_result_def sample_block_def short_sample_zeros_results_def
        objective_lines_def length_S_tutorial select_body_def upt_rec[of 0 9])
  moreover have "pairwise_disjoint S_tutorial (selected_sets S_tutorial s_zeros)"
    unfolding s_zeros_replicate selected_sets_zeros by (simp add: pairwise_disjoint_def)
  ultimately show ?thesis
    by (simp add: short_sample_zeros_results_def length_S_tutorial)
       (simp add: s_zeros_def binary_def)
qed

text \<open>
  Claim C9, amended. Under the same provisos (a non-empty universe, \<open>objective\<close>
  \<open>None\<close> or square of size \<open>len(S)\<close>, the sample at position \<open>k\<close> and every sample
  before it with one entry for each set, an energy and a count), \<open>check_result\<close>
  prints for each of these samples a partition line that reads \<open>True\<close> exactly when
  the selected sets are pairwise disjoint, whatever the coverage. For a sample of zeros
  among them the coverage line reads 0.0% and the partition line \<open>True\<close>.
\<close>

theorem partition_found_iff_pairwise_disjoint:
  assumes X: "X = universe S" and ne: "X \<noteq> {}" and it: "list_all (py_iter iter) S"
    and k: "k < length (samples res)"
    and wf: "\<forall>i\<le>k. length (samples res ! i) = length S"
    and en: "k < length (energies res)" and co: "k < length (counts res)"
    and ob: "objective = None \<or> (\<exists>M. objective = Some M \<and> is_matrix (length S) (length S) M)"
  shows "\<exists>cov part rest err.
           check_result S X iter quad res objective
             = (concat (map (\<lambda>i.
                  [QUBO_value (energies res ! i), Times_sample_found (counts res ! i)]
                  @ (case objective of
                       None \<Rightarrow> []
                     | Some M \<Rightarrow> [Objective_Function_value (quad (samples res ! i) M)])
                  @ [Selected_Sets] @ map Selected (selected_sets S (samples res ! i))
                  @ [Newline, Set_coverage (cov i), Partition_found (part i)])
                [0..<Suc k]) @ rest, err)
         \<and> (\<forall>i\<le>k.
               (part i \<longleftrightarrow> pairwise_disjoint S (selected_sets S (samples res ! i)))
             \<and> (samples res ! i = replicate (length S) 0 \<longrightarrow> cov i = 0 \<and> part i))
         \<and> (Suc k = length (samples res) \<longrightarrow> rest = [] \<and> err = None)"
proof -
  let ?T = "\<lambda>i. \<Union>j\<in>set (selected_sets S (samples res ! i)). S ! j"
  let ?cov = "\<lambda>i. 100 * real (card (?T i)) / real (card X)"
  let ?part = "\<lambda>i. card (?T i)
      = length (concat (map (\<lambda>j. iter (S ! j)) (selected_sets S (samples res ! i))))"
  have p: "?part i \<longleftrightarrow> pairwise_disjoint S (selected_sets S (samples res ! i))" for i
    by (rule partition_found_iff[OF it])
  have z: "?cov i = 0 \<and> ?part i" if "samples res ! i = replicate (length S) 0" for i
    unfolding that by (simp add: selected_sets_zeros)
  then have q: "\<forall>i\<le>k.
       (?part i \<longleftrightarrow> pairwise_disjoint S (selected_sets S (samples res ! i)))
     \<and> (samples res ! i = replicate (length S) 0 \<longrightarrow> ?cov i = 0 \<and> ?part i)"
    using p by blast
  from check_result_prefix_lines[OF X ne it k wf en co ob, of quad]
  obtain rest err where
    eq: "check_result S X iter quad res objective
       = (concat (map (\<lambda>i.
            [QUBO_value (energies res ! i), Times_sample_found (counts res ! i)]
            @ (case objective of
                 None \<Rightarrow> []
               | Some M \<Rightarrow> [Objective_Function_value (quad (samples res ! i) M)])
            @ [Selected_Sets] @ map Selected (selected_sets S (samples res ! i))
            @ [Newline, Set_coverage (?cov i), Partition_found (?part i)])
          [0..<Suc k]) @ rest, err)"
    and last: "Suc k = length (samples res) \<longrightarrow> rest = [] \<and> err = None"
    by blast
  show ?thesis
    by (rule exI[of _ ?cov], rule exI[of _ ?part], rule exI[of _ rest], rule exI[of _ err])
       (rule conjI[OF eq conjI[OF q last]])
qed

theorem partition_found_iff_pairwise_disjoint_witness:
  "check_result S_tutorial X_tutorial sorted_list_of_set qform zeros_results None
   = ([QUBO_value 0, Times_sample_found 1, Selected_Sets, Newline, Set_coverage 0,
       Partition_found True], None)
   \<and> \<not> exact_cover S_tutorial X_tutorial s_zeros"
proof -
  have X: "X_tutorial = universe S_tutorial" by (simp add: universe_tutorial)
  have k: "0 < length (samples zeros_results)" by (simp add: zeros_results_def)
  have wf: "\<forall>i\<le>0. length (samples zeros_results ! i) = length S_tutorial"
    by (simp add: zeros_results_def length_S_tutorial s_zeros_def)
  have en: "0 < length (energies zeros_results)"
    and co: "0 < length (counts zeros_results)"
    by (simp_all add: zeros_results_def)
  have z: "samples zeros_results ! 0 = replicate (length S_tutorial) 0"
    by (simp add: zeros_results_def s_zeros_replicate)
  have n: "Suc 0 = length (samples zeros_results)" by (simp add: zeros_results_def)
  from partition_found_iff_pairwise_disjoint[OF X X_tutorial_nonempty py_iter_S_tutorial k wf en co,
      of None qform]
  obtain cov part rest err where
    out: "check_result S_tutorial X_tutorial sorted_list_of_set qform zeros_results None
      = (concat (map (\<lambda>i.
           [QUBO_value (energies zeros_results ! i),
            Times_sample_found (counts zeros_results ! i)]
           @ [] @ [Selected_Sets]
           @ map Selected (selected_sets S_tutorial (samples zeros_results ! i))
           @ [Newline, Set_coverage (cov i), Partition_found (part i)])
         [0..<Suc 0]) @ rest, err)"
    and zero: "samples zeros_results ! 0 = replicate (length S_tutorial) 0
                \<Longrightarrow> cov 0 = 0 \<and> part 0"
    and last: "Suc 0 = length (samples zeros_results) \<Longrightarrow> rest = [] \<and> err = None"
    by auto
  have c: "cov 0 = 0" "part 0" using zero[OF z] by simp_all
  have ne: "\<not> exact_cover S_tutorial X_tutorial s_zeros"
    by code_simp
  have sel: "selected_sets S_tutorial s_zeros = []"
    unfolding s_zeros_replicate by (rule selected_sets_zeros)
  show ?thesis
    unfolding out using c ne last[OF n] by (simp add: zeros_results_def sel)
qed

section \<open>Reading the results of a job\<close>

lemma get_results_absent:
  assumes "map_of response ''results'' = None \<or> map_of response ''results'' = Some JNull"
    and "map_of response ''job_info'' = None \<or> (\<exists>d. map_of response ''job_info'' = Some (JObj d))"
  shows "get_results response
       = Inl (RuntimeError
           (case map_of response ''job_info'' of
              Some (JObj d) \<Rightarrow> (case map_of d ''job_result'' of Some v \<Rightarrow> v | None \<Rightarrow> JNull)
            | _ \<Rightarrow> JNull))"
  using assms by (auto simp: get_results_def split: option.splits)

lemma get_results_runtime_error:
  assumes "get_results response = Inl (RuntimeError details)"
  shows "map_of response ''results'' = None \<or> map_of response ''results'' = Some JNull"
proof (rule ccontr)
  assume n: "\<not> ?thesis"
  then have "get_results response
     = (case py_getitem (the (map_of response ''results'')) ''file_config'' of
           Inl e \<Rightarrow> Inl e
         | Inr results_file_config \<Rightarrow>
             (case py_len results_file_config of
                Inl e \<Rightarrow> Inl e
              | Inr n \<Rightarrow>
                  if n \<noteq> 1 then Inl AssertionError
                  else
                    (case py_values results_file_config of
                       Inl e \<Rightarrow> Inl e
                     | Inr vs \<Rightarrow> (case vs of [] \<Rightarrow> Inl IndexError | results # _ \<Rightarrow> Inr results))))"
    by (simp add: get_results_def)
  with assms show False
    by (cases "the (map_of response ''results'')";
        cases "py_getitem (the (map_of response ''results'')) ''file_config''")
       (auto split: option.splits sum.splits if_splits list.splits
             elim!: py_len.elims py_values.elims)
qed

lemma get_results_single:
  assumes "map_of response ''results'' = Some (JObj r)" "map_of r ''file_config'' = Some (JObj [(k, v)])"
  shows "get_results response = Inr v"
  using assms by (simp add: get_results_def)

lemma get_results_assertion:
  assumes "map_of response ''results'' = Some (JObj r)" "map_of r ''file_config'' = Some (JObj fc)"
    "length fc \<noteq> 1"
  shows "get_results response = Inl AssertionError"
  using assms by (simp add: get_results_def)

theorem get_results_raises_counterexample:
  "map_of two_results_response ''results'' \<noteq> None
   \<and> map_of two_results_response ''results'' \<noteq> Some JNull
   \<and> get_results two_results_response = Inl AssertionError"
  by (simp add: two_results_response_def get_results_def)

text \<open>
  Claim C3, amended. For a response whose \<open>job_info\<close>, when present, is a dictionary:
  \<open>get_results\<close> raises its \<open>RuntimeError\<close> exactly when the response has no
  \<open>results\<close> key or \<open>results\<close> is \<open>None\<close>; the error then carries
  \<open>response["job_info"]["job_result"]\<close> when both keys are present and \<open>None\<close>
  otherwise, and nothing is returned. When \<open>results\<close> is a dictionary whose
  \<open>file_config\<close> is a dictionary, \<open>get_results\<close> returns the single value of a
  \<open>file_config\<close> of one key, and raises \<open>AssertionError\<close> for any other number of
  keys.
\<close>

theorem get_results_outcomes:
  assumes "map_of response ''job_info'' = None
         \<or> (\<exists>d. map_of response ''job_info'' = Some (JObj d))"
  shows "((\<exists>details. get_results response = Inl (RuntimeError details))
            \<longleftrightarrow> map_of response ''results'' = None \<or> map_of response ''results'' = Some JNull)
       \<and> (map_of response ''results'' = None \<or> map_of response ''results'' = Some JNull
            \<longrightarrow> get_results response
                = Inl (RuntimeError
                    (case map_of response ''job_info'' of
                       Some (JObj d) \<Rightarrow>
                         (case map_of d ''job_result'' of Some v \<Rightarrow> v | None \<Rightarrow> JNull)
                     | _ \<Rightarrow> JNull)))
       \<and> (\<forall>r k v. map_of response ''results'' = Some (JObj r)
              \<and> map_of r ''file_config'' = Some (JObj [(k, v)])
            \<longrightarrow> get_results response = Inr v)
       \<and> (\<forall>r fc. map_of response ''results'' = Some (JObj r)
              \<and> map_of r ''file_config'' = Some (JObj fc) \<and> length fc \<noteq> 1
            \<longrightarrow> get_results response = Inl AssertionError)"
  using get_results_absent[OF _ assms] get_results_runtime_error[of response]
    get_results_single[of response] get_results_assertion[of response]
  by blast

theorem get_results_outcomes_witness:
  "get_results qudit_response = Inr qudit_results
   \<and> get_results failed_response
       = Inl (RuntimeError (JObj [(''error'', JStr ''device unavailable'')]))
   \<and> get_results two_results_response = Inl AssertionError"
proof -
  have 1: "get_results qudit_response = Inr qudit_results"
    using get_results_outcomes[of qudit_response]
    by (simp add: qudit_response_def)
  have 2: "get_results failed_response
       = Inl (RuntimeError (JObj [(''error'', JStr ''device unavailable'')]))"
    using get_results_outcomes[of failed_response]
    by (simp add: failed_response_def)
  have 3: "get_results two_results_response = Inl AssertionError"
    using get_results_outcomes[of two_results_response]
    by (simp add: two_results_response_def)
  from 1 2 3 show ?thesis by blast
qed

section \<open>Submitting a Hamiltonian\<close>

theorem sample_hamiltonian_row_counterexample:
  "length (entries C_row) = 3 \<and> is_matrix 3 3 J_qudit
   \<and> sample_hamiltonian C_row J_qudit 400 1 0.1 accepting_client 0 = (Inl ValueError, [], 0)"
  by (simp add: sample_hamiltonian_def build_H_def reshape_n_1_def shape0_def entries_def
      C_row_def J_qudit_def is_matrix_def)

text \<open>
  Claim C8, amended. Let \<open>C\<close> have \<open>n\<close> entries along its first axis and no other
  (a vector of length \<open>n\<close>, or an \<open>n\<close>-by-1 column), let \<open>J\<close> be \<open>n\<close>-by-\<open>n\<close>,
  and let the client's upload return a \<open>file_id\<close> and its \<open>build_job_body\<close> return a
  job body. Then \<open>sample_hamiltonian\<close> uploads the \<open>n\<close>-by-\<open>(n + 1)\<close> matrix
  \<open>[C | J]\<close> as the Hamiltonian data, calls \<open>build_job_body\<close> with the caller's
  \<open>sum_constraint\<close>, \<open>relaxation_schedule = schedule\<close> and \<open>solution_precision\<close>
  and with \<open>nsamples = 1\<close>, passes the job body it gets to \<open>process_job\<close>, and
  returns what \<open>process_job\<close> returns.
\<close>

theorem sample_hamiltonian_submits:
  assumes C: "shape0 C = n" "length (entries C) = n" and J: "is_matrix n n J"
    and up: "upload_file client
               \<lparr>file_name = ''qudit-tutorial-hame'',
                hamiltonian_data = map2 (#) (entries C) J\<rparr> w = (Inr uploaded, w1)"
    and fid: "map_of uploaded ''file_id'' = Some file_id"
    and bd: "build_job_body client
               \<lparr>job_type = ''sample-hamiltonian'', hamiltonian_file_id = file_id,
                params = \<lparr>sampler_type = ''dirac-3'', nsamples = 1,
                           solution_precision = precision, sum_constraint = constraint,
                           relaxation_schedule = schedule\<rparr>,
                job_tags = [''qudit-tutorial'']\<rparr> w1 = (Inr job_body, w2)"
    and pr: "process_job client ''sample-hamiltonian'' job_body True w2 = (response, w3)"
  shows "sample_hamiltonian C J constraint schedule precision client w
         = (response,
            [Upload_file \<lparr>file_name = ''qudit-tutorial-hame'',
                          hamiltonian_data = map2 (#) (entries C) J\<rparr>,
             Build_job_body
               \<lparr>job_type = ''sample-hamiltonian'', hamiltonian_file_id = file_id,
                params = \<lparr>sampler_type = ''dirac-3'', nsamples = 1,
                           solution_precision = precision, sum_constraint = constraint,
                           relaxation_schedule = schedule\<rparr>,
                job_tags = [''qudit-tutorial'']\<rparr>,
             Process_job ''sample-hamiltonian'' job_body True],
            w3)
       \<and> is_matrix n (n + 1) (map2 (#) (entries C) J)
       \<and> (\<forall>i<n. map2 (#) (entries C) J ! i = entries C ! i # J ! i)"
proof -
  note H = build_H_stack[OF C J]
  have run: "sample_hamiltonian C J constraint schedule precision client w
         = (response,
            [Upload_file \<lparr>file_name = ''qudit-tutorial-hame'',
                          hamiltonian_data = map2 (#) (entries C) J\<rparr>,
             Build_job_body
               \<lparr>job_type = ''sample-hamiltonian'', hamiltonian_file_id = file_id,
                params = \<lparr>sampler_type = ''dirac-3'', nsamples = 1,
                           solution_precision = precision, sum_constraint = constraint,
                           relaxation_schedule = schedule\<rparr>,
                job_tags = [''qudit-tutorial'']\<rparr>,
             Process_job ''sample-hamiltonian'' job_body True],
            w3)"
    using up fid bd pr by (simp add: sample_hamiltonian_def H(1) Let_def)
  have rows: "\<forall>i<n. map2 (#) (entries C) J ! i = entries C ! i # J ! i"
    using C J by (simp add: is_matrix_def)
  from run H(2) rows show ?thesis by simp
qed

theorem sample_hamiltonian_submits_witness:
  "sample_hamiltonian h_qudit J_qudit 400 1 0.1 accepting_client 0
   = (Inr qudit_response,
      [Upload_file \<lparr>file_name = ''qudit-tutorial-hame'',
                    hamiltonian_data = [[- 1, 0, 1, 1], [0, 1, 0, 1], [0, 1, 1, 0]]\<rparr>,
       Build_job_body
         \<lparr>job_type = ''sample-hamiltonian'',
          hamiltonian_file_id = JStr ''65dff356fd7ff43e52669ab3'',
          params = \<lparr>sampler_type = ''dirac-3'', nsamples = 1, solution_precision = 0.1,
                     sum_constraint = 400, relaxation_schedule = 1\<rparr>,
          job_tags = [''qudit-tutorial'']\<rparr>,
       Process_job ''sample-hamiltonian'' (JObj [(''job_submission'', JNull)]) True],
      2)
   \<and> is_matrix 3 4 [[- 1, 0, 1, 1], [0, 1, 0, 1], [0, 1, 1, 0]]"
proof -
  have C: "shape0 h_qudit = 3" "length (entries h_qudit) = 3"
    by (simp_all add: h_qudit_def shape0_def entries_def)
  have Jq: "is_matrix 3 3 J_qudit" by (simp add: J_qudit_def is_matrix_def)
  have H: "map2 (#) (entries h_qudit) J_qudit = [[- 1, 0, 1, 1], [0, 1, 0, 1], [0, 1, 1, 0]]"
    by (simp add: h_qudit_def J_qudit_def entries_def)
  have up: "upload_file accepting_client
               \<lparr>file_name = ''qudit-tutorial-hame'',
                hamiltonian_data = map2 (#) (entries h_qudit) J_qudit\<rparr> 0
            = (Inr [(''file_id'', JStr ''65dff356fd7ff43e52669ab3'')], 1)"
    by (simp add: accepting_client_def)
  have fid: "map_of [(''file_id'', JStr ''65dff356fd7ff43e52669ab3'')] ''file_id''
            = Some (JStr ''65dff356fd7ff43e52669ab3'')"
    by simp
  have bd: "build_job_body accepting_client
               \<lparr>job_type = ''sample-hamiltonian'',
                hamiltonian_file_id = JStr ''65dff356fd7ff43e52669ab3'',
                params = \<lparr>sampler_type = ''dirac-3'', nsamples = 1,
                           solution_precision = 0.1, sum_constraint = 400,
                           relaxation_schedule = 1\<rparr>,
                job_tags = [''qudit-tutorial'']\<rparr> 1
            = (Inr (JObj [(''job_submission'', JNull)]), 1)"
    by (simp add: accepting_client_def)
  have pr: "process_job accepting_client ''sample-hamiltonian''
              (JObj [(''job_submission'', JNull)]) True 1 = (Inr qudit_response, 2)"
    by (simp add: accepting_client_def)
  from sample_hamiltonian_submits[OF C Jq up fid bd pr] show ?thesis
    by (simp add: H)
qed

section \<open>The outputs that the notebook displays\<close>

text \<open>
  The model, run on the notebook's data, gives the values that the notebook's output
  cells show: \<open>J\<close>, \<open>h\<close>, \<open>offset\<close> and \<open>P\<close> (which do not depend on the order
  in which \<open>X\<close> is iterated), and the lines of
  \<open>check_result(penalty_only_response["results"])\<close>.
\<close>

lemma tutorial_encoder_output:
  "encoder (build_A sorted_list_of_set S_tutorial X_tutorial)
     (build_b (build_A sorted_list_of_set S_tutorial X_tutorial))
   = Inr ([[3, 0, 1, 1, 1, 1, 1, 1, 2],
           [0, 3, 1, 1, 1, 0, 0, 2, 0],
           [1, 1, 2, 0, 0, 1, 0, 0, 0],
           [1, 1, 0, 2, 0, 0, 1, 1, 1],
           [1, 1, 0, 0, 2, 0, 0, 2, 1],
           [1, 0, 1, 0, 0, 1, 0, 0, 0],
           [1, 0, 0, 1, 0, 0, 1, 0, 1],
           [1, 2, 0, 1, 2, 0, 0, 3, 1],
           [2, 0, 0, 1, 1, 0, 1, 1, 2]],
          [[- 6], [- 6], [- 4], [- 4], [- 4], [- 2], [- 2], [- 6], [- 4]],
          6)"
  by code_simp

lemma tutorial_P_output:
  "build_P [[3, 0, 1, 1, 1, 1, 1, 1, 2],
           [0, 3, 1, 1, 1, 0, 0, 2, 0],
           [1, 1, 2, 0, 0, 1, 0, 0, 0],
           [1, 1, 0, 2, 0, 0, 1, 1, 1],
           [1, 1, 0, 0, 2, 0, 0, 2, 1],
           [1, 0, 1, 0, 0, 1, 0, 0, 0],
           [1, 0, 0, 1, 0, 0, 1, 0, 1],
           [1, 2, 0, 1, 2, 0, 0, 3, 1],
           [2, 0, 0, 1, 1, 0, 1, 1, 2]]
          [[- 6], [- 6], [- 4], [- 4], [- 4], [- 2], [- 2], [- 6], [- 4]]
   = [[- 3, 0, 1, 1, 1, 1, 1, 1, 2],
      [0, - 3, 1, 1, 1, 0, 0, 2, 0],
      [1, 1, - 2, 0, 0, 1, 0, 0, 0],
      [1, 1, 0, - 2, 0, 0, 1, 1, 1],
      [1, 1, 0, 0, - 2, 0, 0, 2, 1],
      [1, 0, 1, 0, 0, - 1, 0, 0, 0],
      [1, 0, 0, 1, 0, 0, - 1, 0, 1],
      [1, 2, 0, 1, 2, 0, 0, - 3, 1],
      [2, 0, 0, 1, 1, 0, 1, 1, - 2]]"
  by code_simp

lemma tutorial_check_result_output:
  "check_result S_tutorial X_tutorial sorted_list_of_set quad penalty_only_results None
   = ([QUBO_value (- 6), Times_sample_found 2, Selected_Sets,
       Selected 2, Selected 6, Selected 7, Newline, Set_coverage 100, Partition_found True,
       QUBO_value (- 6), Times_sample_found 2, Selected_Sets,
       Selected 2, Selected 3, Selected 4, Newline, Set_coverage 100, Partition_found True,
       QUBO_value (- 6), Times_sample_found 1, Selected_Sets,
       Selected 0, Selected 1, Newline, Set_coverage 100, Partition_found True], None)"
  by code_simp

end
